theory Spec2Isabelle
  imports Main "HOL-Library.Word"
begin

section \<open>The system logger (src/backend/postmaster/syslogger.c)\<close>

text \<open>
  A shallow embedding of the log collector process: the module-scope variables of
  syslogger.c become one record, every call into the operating system or into another
  module appends an event to a trace, and the answers of the operating system (clock,
  \<open>fopen\<close>, \<open>select\<close>, pipe read, \<open>fwrite\<close>, the reread configuration file) are the
  fields of an environment record, one per call site of a main-loop iteration.

  The embedding is of the build without \<open>WIN32\<close> (the \<open>#ifndef WIN32\<close> branches), with
  C \<open>int\<close> as a signed 32-bit word and \<open>long\<close>, \<open>size_t\<close> and \<open>pg_time_t\<close> as 64-bit
  words; signed overflow wraps around.
\<close>

subsection \<open>C types and constants\<close>

type_synonym c_int = "32 word"
type_synonym c_long = "64 word"
type_synonym size_t = "64 word"
type_synonym pg_time_t = "64 word"

text \<open>A \<open>FILE *\<close>: the address of the stream, \<open>NULL\<close> being 0.\<close>

type_synonym FILE_ptr = nat

definition NULL :: FILE_ptr where
  "NULL = 0"

text \<open>The \<open>errno\<close> values the collector tests for, with their Linux numbers.\<close>

definition EINTR :: c_int where
  "EINTR = 4"

definition ENFILE :: c_int where
  "ENFILE = 23"

definition EMFILE :: c_int where
  "EMFILE = 24"

datatype elevel = LOG | FATAL

text \<open>
  What the process does to the outside, in program order. \<open>Call_fopen\<close> carries the
  name, the mode and the stream that was returned; \<open>Ereport\<close> carries the \<open>errmsg\<close>
  format and its string arguments (the diagnostic channel of elog.c is not part of this
  file and is kept abstract).
\<close>

datatype event =
    Call_time
  | Call_ProcessConfigFile
  | Call_ftell FILE_ptr
  | Call_fopen string string FILE_ptr
  | Call_setvbuf FILE_ptr
  | Call_fclose FILE_ptr
  | Call_select
  | Call_piperead
  | Call_fwrite FILE_ptr string
  | Ereport elevel string "string list"
  | Call_proc_exit c_int

subsection \<open>What the rest of the server provides\<close>

text \<open>
  \<open>MAXPGPATH\<close> (pg_config_manual.h), \<open>is_absolute_path\<close> (port.h), \<open>pg_localtime\<close> and
  \<open>pg_strftime\<close> (pgtime.h) are used by syslogger.c and declared outside it: they are
  parameters of the embedding. \<open>'tm\<close> stands for \<open>struct pg_tm\<close>.
\<close>

record 'tm platform =
  MAXPGPATH :: nat
  is_absolute_path :: "string \<Rightarrow> bool"
  pg_localtime :: "pg_time_t \<Rightarrow> 'tm"
  pg_strftime :: "nat \<Rightarrow> string \<Rightarrow> 'tm \<Rightarrow> string"

text \<open>The values a reread of the configuration file publishes.\<close>

record guc_values =
  guc_Log_RotationAge :: c_int
  guc_Log_RotationSize :: c_int
  guc_Log_directory :: string
  guc_Log_filename_prefix :: string

text \<open>The answers of the outside world during one iteration of the main loop.\<close>

record loop_env =
  config_file :: guc_values
  time_age_check :: pg_time_t
  ftell_result :: "FILE_ptr \<Rightarrow> c_long"
  time_rotate :: pg_time_t
  fopen_result :: FILE_ptr
  fopen_errno :: c_int
  select_rc :: c_int
  select_errno :: c_int
  select_isset :: bool
  piperead_rc :: c_int
  piperead_errno :: c_int
  piperead_buf :: string
  fwrite_room :: nat

subsection \<open>The state of the collector\<close>

text \<open>
  The GUC parameters and the private state of syslogger.c, \<open>currentLogDir\<close> (a local
  buffer of \<open>SysLoggerMain\<close> that lives as long as the loop), the globals \<open>DataDir\<close> and
  \<open>PostmasterPid\<close> read by \<open>logfile_getname\<close>, and the trace.
\<close>

record syslogger =
  Log_RotationAge :: c_int
  Log_RotationSize :: c_int
  Log_directory :: string
  Log_filename_prefix :: string
  last_rotation_time :: pg_time_t
  pipe_eof_seen :: bool
  syslogFile :: FILE_ptr
  got_SIGHUP :: bool
  currentLogDir :: string
  DataDir :: string
  PostmasterPid :: c_int
  trace :: "event list"

definition emit :: "event list \<Rightarrow> syslogger \<Rightarrow> syslogger" where
  "emit es s = s\<lparr>trace := trace s @ es\<rparr>"

definition ereport :: "elevel \<Rightarrow> string \<Rightarrow> string list \<Rightarrow> syslogger \<Rightarrow> syslogger" where
  "ereport lev msg args s = emit [Ereport lev msg args] s"

subsection \<open>C library routines on strings\<close>

text \<open>
  A C string is the list of its characters before the terminating NUL. \<open>strncmp\<close>
  looks at the first \<open>n\<close> characters at most; \<open>strncpy\<close> copies \<open>n\<close> at most (and then
  leaves the buffer without a terminator, so that the buffer holds just these).
\<close>

fun strncmp :: "string \<Rightarrow> string \<Rightarrow> nat \<Rightarrow> int" where
  "strncmp a b 0 = 0"
| "strncmp [] [] (Suc n) = 0"
| "strncmp [] (y # ys) (Suc n) = - 1"
| "strncmp (x # xs) [] (Suc n) = 1"
| "strncmp (x # xs) (y # ys) (Suc n) =
     (if x = y then strncmp xs ys n
      else if (of_char x :: nat) < of_char y then - 1 else 1)"

definition strncpy :: "string \<Rightarrow> nat \<Rightarrow> string" where
  "strncpy src n = take n src"

text \<open>Decimal digits of an unsigned number, most significant first.\<close>

fun utoa :: "nat \<Rightarrow> string" where
  "utoa n = (if n < 10 then [char_of (48 + n)]
             else utoa (n div 10) @ [char_of (48 + n mod 10)])"

declare utoa.simps [simp del]

definition zero_pad :: "nat \<Rightarrow> string \<Rightarrow> string" where
  "zero_pad w ds = replicate (w - length ds) (CHR ''0'') @ ds"

datatype printf_arg = Str string | UInt c_int

text \<open>
  The conversions of \<open>printf\<close> that syslogger.c uses: \<open>%s\<close> and \<open>%05u\<close> (an unsigned
  decimal, padded with zeros on the left to a width of 5 at least).
\<close>

fun printf :: "string \<Rightarrow> printf_arg list \<Rightarrow> string" where
  "printf [] args = []"
| "printf (c # fmt) args =
     (if c = CHR ''%'' \<and> take 1 fmt = ''s'' then
        (case args of
           Str a # rest \<Rightarrow> a @ printf (drop 1 fmt) rest
         | _ \<Rightarrow> [])
      else if c = CHR ''%'' \<and> take 3 fmt = ''05u'' then
        (case args of
           UInt u # rest \<Rightarrow> zero_pad 5 (utoa (unat u)) @ printf (drop 3 fmt) rest
         | _ \<Rightarrow> [])
      else c # printf fmt args)"

text \<open>\<open>snprintf\<close> into a buffer of \<open>n\<close> bytes keeps \<open>n - 1\<close> characters.\<close>

definition snprintf :: "nat \<Rightarrow> string \<Rightarrow> printf_arg list \<Rightarrow> string" where
  "snprintf n fmt args = take (n - 1) (printf fmt args)"

subsection \<open>logfile\_getname\<close>

definition logfile_getname :: "'tm platform \<Rightarrow> syslogger \<Rightarrow> pg_time_t \<Rightarrow> string" where
  "logfile_getname P s timestamp =
     (let stamptext = pg_strftime P 128 ''%Y-%m-%d_%H%M%S'' (pg_localtime P timestamp)
      in if is_absolute_path P (Log_directory s) then
           snprintf (MAXPGPATH P) ''%s/%s%05u_%s.log''
             [Str (Log_directory s), Str (Log_filename_prefix s),
              UInt (PostmasterPid s), Str stamptext]
         else
           snprintf (MAXPGPATH P) ''%s/%s/%s%05u_%s.log''
             [Str (DataDir s), Str (Log_directory s), Str (Log_filename_prefix s),
              UInt (PostmasterPid s), Str stamptext])"

subsection \<open>write\_syslogger\_file\<close>

text \<open>
  \<open>fwrite(buffer, 1, count, stream)\<close> returns the number of bytes it wrote: all of
  them, or as many as the stream had room for.
\<close>

definition fwrite :: "loop_env \<Rightarrow> size_t \<Rightarrow> size_t" where
  "fwrite env nmemb = of_nat (min (fwrite_room env) (unat nmemb))"

definition write_syslogger_file :: "loop_env \<Rightarrow> string \<Rightarrow> c_int \<Rightarrow> syslogger \<Rightarrow> syslogger" where
  "write_syslogger_file env buffer count s =
     (let nmemb = (scast count :: size_t);
          rc = (ucast (fwrite env nmemb) :: c_int);
          s1 = emit [Call_fwrite (syslogFile s) (take (unat nmemb) buffer)] s
      in if rc \<noteq> count then
           ereport LOG ''could not write to logfile: %m'' [] s1
         else s1)"

subsection \<open>logfile\_rotate\<close>

definition logfile_rotate :: "'tm platform \<Rightarrow> loop_env \<Rightarrow> syslogger \<Rightarrow> syslogger" where
  "logfile_rotate P env s =
     (let now = time_rotate env;
          filename = logfile_getname P s now;
          fh = fopen_result env;
          s1 = emit [Call_time, Call_fopen filename ''a'' fh] s
      in if fh = NULL then
           let saveerrno = fopen_errno env;
               s2 = ereport LOG ''could not open new logfile \"%s\": %m'' [filename] s1
           in if saveerrno \<noteq> ENFILE \<and> saveerrno \<noteq> EMFILE then
                (ereport LOG ''disabling auto rotation (use SIGHUP to reenable)'' [] s2)
                  \<lparr>Log_RotationAge := 0, Log_RotationSize := 0\<rparr>
              else s2
         else
           (emit [Call_setvbuf fh, Call_fclose (syslogFile s)] s1)
             \<lparr>syslogFile := fh, last_rotation_time := now\<rparr>)"

subsection \<open>The signal handler\<close>

definition sigHupHandler :: "syslogger \<Rightarrow> syslogger" where
  "sigHupHandler s = s\<lparr>got_SIGHUP := True\<rparr>"

subsection \<open>SysLoggerMain\<close>

text \<open>
  Modelled from the spec: \<open>ProcessConfigFile\<close> (guc.c) is not part of this file; the
  configuration system rereads the file and publishes the current values of the
  tunables. \<open>Redirect_stderr\<close> cannot change after the start.
\<close>

definition ProcessConfigFile :: "loop_env \<Rightarrow> syslogger \<Rightarrow> syslogger" where
  "ProcessConfigFile env s =
     (emit [Call_ProcessConfigFile] s)
       \<lparr>Log_RotationAge := guc_Log_RotationAge (config_file env),
        Log_RotationSize := guc_Log_RotationSize (config_file env),
        Log_directory := guc_Log_directory (config_file env),
        Log_filename_prefix := guc_Log_filename_prefix (config_file env)\<rparr>"

text \<open>Before the loop: remember the age of the initial file and its directory.\<close>

definition SysLoggerMain_init :: "'tm platform \<Rightarrow> pg_time_t \<Rightarrow> syslogger \<Rightarrow> syslogger" where
  "SysLoggerMain_init P now s =
     (emit [Call_time] s)
       \<lparr>last_rotation_time := now,
        currentLogDir := strncpy (Log_directory s) (MAXPGPATH P)\<rparr>"

text \<open>
  The body of the loop, in its order. The first three parts carry the local
  \<open>rotation_requested\<close>, which starts as false in every iteration.
\<close>

definition SysLoggerMain_reload :: "'tm platform \<Rightarrow> loop_env \<Rightarrow> syslogger \<Rightarrow> bool \<times> syslogger" where
  "SysLoggerMain_reload P env s =
     (if got_SIGHUP s then
        let s1 = ProcessConfigFile env (s\<lparr>got_SIGHUP := False\<rparr>)
        in if strncmp (Log_directory s1) (currentLogDir s1) (MAXPGPATH P) \<noteq> 0 then
             (True, s1\<lparr>currentLogDir := strncpy (Log_directory s1) (MAXPGPATH P)\<rparr>)
           else (False, s1)
      else (False, s))"

definition SysLoggerMain_age_check :: "loop_env \<Rightarrow> bool \<times> syslogger \<Rightarrow> bool \<times> syslogger" where
  "SysLoggerMain_age_check env rs =
     (let rotation_requested = fst rs; s = snd rs
      in if \<not> rotation_requested \<and> last_rotation_time s \<noteq> 0 \<and> 0 <s Log_RotationAge s then
           let now = time_age_check env;
               s1 = emit [Call_time] s;
               elapsed_secs = (ucast (now - last_rotation_time s) :: c_int)
           in if Log_RotationAge s * 60 \<le>s elapsed_secs then (True, s1)
              else (rotation_requested, s1)
         else (rotation_requested, s))"

definition SysLoggerMain_size_check :: "loop_env \<Rightarrow> bool \<times> syslogger \<Rightarrow> bool \<times> syslogger" where
  "SysLoggerMain_size_check env rs =
     (let rotation_requested = fst rs; s = snd rs
      in if \<not> rotation_requested \<and> 0 <s Log_RotationSize s then
           let s1 = emit [Call_ftell (syslogFile s)] s
           in if (scast (Log_RotationSize s) :: c_long) * 1024 \<le>s ftell_result env (syslogFile s)
              then (True, s1)
              else (rotation_requested, s1)
         else (rotation_requested, s))"

definition SysLoggerMain_checks :: "'tm platform \<Rightarrow> loop_env \<Rightarrow> syslogger \<Rightarrow> bool \<times> syslogger" where
  "SysLoggerMain_checks P env s =
     SysLoggerMain_size_check env (SysLoggerMain_age_check env (SysLoggerMain_reload P env s))"

text \<open>
  Waiting for the pipe and reading it once. The result says whether the iteration
  ended at the \<open>continue\<close> after a write.
\<close>

definition SysLoggerMain_drain :: "loop_env \<Rightarrow> syslogger \<Rightarrow> bool \<times> syslogger" where
  "SysLoggerMain_drain env s =
     (let rc = select_rc env;
          s1 = emit [Call_select] s
      in if rc <s 0 then
           (False,
            if select_errno env \<noteq> EINTR
            then ereport LOG ''select() failed in logger process: %m'' [] s1
            else s1)
         else if 0 <s rc \<and> select_isset env then
           let bytesRead = piperead_rc env;
               s2 = emit [Call_piperead] s1
           in if bytesRead <s 0 then
                (False,
                 if piperead_errno env \<noteq> EINTR
                 then ereport LOG ''could not read from logger pipe: %m'' [] s2
                 else s2)
              else if 0 <s bytesRead then
                (True, write_syslogger_file env (piperead_buf env) bytesRead s2)
              else (False, s2\<lparr>pipe_eof_seen := True\<rparr>)
         else (False, s1))"

datatype outcome = Running syslogger | Exited c_int syslogger

fun state_of :: "outcome \<Rightarrow> syslogger" where
  "state_of (Running s) = s"
| "state_of (Exited c s) = s"

definition proc_exit :: "c_int \<Rightarrow> syslogger \<Rightarrow> outcome" where
  "proc_exit code s = Exited code (emit [Call_proc_exit code] s)"

text \<open>The first half of the body: the checks, then the rotation if one was requested.\<close>

definition SysLoggerMain_rotation :: "'tm platform \<Rightarrow> loop_env \<Rightarrow> syslogger \<Rightarrow> syslogger" where
  "SysLoggerMain_rotation P env s =
     (let rs = SysLoggerMain_checks P env s
      in if fst rs then logfile_rotate P env (snd rs) else snd rs)"

text \<open>The end of the body: the \<open>continue\<close> skips the test of \<open>pipe_eof_seen\<close>.\<close>

definition SysLoggerMain_finish :: "bool \<times> syslogger \<Rightarrow> outcome" where
  "SysLoggerMain_finish ds =
     (if fst ds then Running (snd ds)
      else if pipe_eof_seen (snd ds) then
        proc_exit 0 (ereport LOG ''logger shutting down'' [] (snd ds))
      else Running (snd ds))"

definition SysLoggerMain_iteration :: "'tm platform \<Rightarrow> loop_env \<Rightarrow> syslogger \<Rightarrow> outcome" where
  "SysLoggerMain_iteration P env s =
     SysLoggerMain_finish (SysLoggerMain_drain env (SysLoggerMain_rotation P env s))"

text \<open>
  The loop over what happens to the process: a reload signal is delivered between two
  iterations, or the loop runs one iteration. The loop ends at \<open>proc_exit\<close>; a list that
  is used up leaves the process running.
\<close>

datatype step = Signal_SIGHUP | Iteration loop_env

fun SysLoggerMain_loop :: "'tm platform \<Rightarrow> step list \<Rightarrow> syslogger \<Rightarrow> outcome" where
  "SysLoggerMain_loop P [] s = Running s"
| "SysLoggerMain_loop P (Signal_SIGHUP # steps) s = SysLoggerMain_loop P steps (sigHupHandler s)"
| "SysLoggerMain_loop P (Iteration env # steps) s =
     (case SysLoggerMain_iteration P env s of
        Exited code s' \<Rightarrow> Exited code s'
      | Running s' \<Rightarrow> SysLoggerMain_loop P steps s')"

subsection \<open>The specification's wording, for comparison with the code\<close>

text \<open>
  The decision policy as the specification words it, in unbounded integers: a rotation
  is requested when the reload asked for one, or the age threshold is positive and
  reached, or the size threshold is positive and reached. The thresholds are the values
  in force after the reload of this iteration.
\<close>

definition spec_rotation_requested :: "'tm platform \<Rightarrow> loop_env \<Rightarrow> syslogger \<Rightarrow> bool" where
  "spec_rotation_requested P env s =
     (let s1 = snd (SysLoggerMain_reload P env s)
      in fst (SysLoggerMain_reload P env s) \<or>
         (0 < sint (Log_RotationAge s1) \<and>
          sint (Log_RotationAge s1) * 60
            \<le> sint (time_age_check env) - sint (last_rotation_time s1)) \<or>
         (0 < sint (Log_RotationSize s1) \<and>
          sint (Log_RotationSize s1) * 1024 \<le> sint (ftell_result env (syslogFile s1))))"

text \<open>
  The file name as the specification words it: the process identifier as a decimal of
  exactly five digits, and the whole path whatever its length.
\<close>

definition spec_pid5 :: "nat \<Rightarrow> string" where
  "spec_pid5 n =
     map (\<lambda>d. char_of (48 + d))
       [n div 10000 mod 10, n div 1000 mod 10, n div 100 mod 10, n div 10 mod 10, n mod 10]"

definition spec_logfile_name :: "'tm platform \<Rightarrow> syslogger \<Rightarrow> pg_time_t \<Rightarrow> string" where
  "spec_logfile_name P s timestamp =
     (if is_absolute_path P (Log_directory s) then Log_directory s
      else DataDir s @ ''/'' @ Log_directory s)
     @ ''/'' @ Log_filename_prefix s @ spec_pid5 (unat (PostmasterPid s)) @ ''_''
     @ pg_strftime P 128 ''%Y-%m-%d_%H%M%S'' (pg_localtime P timestamp) @ ''.log''"

text \<open>The value of a string of decimal digits.\<close>

definition atou :: "string \<Rightarrow> nat" where
  "atou ds = foldl (\<lambda>acc c. 10 * acc + (of_char c - 48)) 0 ds"

definition is_digit :: "char \<Rightarrow> bool" where
  "is_digit c \<longleftrightarrow> (48 :: nat) \<le> of_char c \<and> (of_char c :: nat) \<le> 57"

text \<open>The last \<open>k\<close> decimal digits of a number, most significant first.\<close>

fun pad_digits :: "nat \<Rightarrow> nat \<Rightarrow> string" where
  "pad_digits 0 n = []"
| "pad_digits (Suc k) n = pad_digits k (n div 10) @ [char_of (48 + n mod 10)]"

subsection \<open>Auxiliary notions\<close>

text \<open>
  From \<open>s\<close> to \<open>s'\<close> the trace has only grown, and unless the configuration file was
  reread on the way, a rotation threshold that was zero is still zero.
\<close>

definition keeps_disabled :: "syslogger \<Rightarrow> syslogger \<Rightarrow> bool" where
  "keeps_disabled s s' \<longleftrightarrow>
     (\<exists>es. trace s' = trace s @ es \<and>
       (Call_ProcessConfigFile \<notin> set es \<longrightarrow>
          (Log_RotationAge s = 0 \<longrightarrow> Log_RotationAge s' = 0) \<and>
          (Log_RotationSize s = 0 \<longrightarrow> Log_RotationSize s' = 0)))"

text \<open>
  The name under which the last successful \<open>fopen\<close> of the trace opened its file, if
  there was one.
\<close>

fun rotated_name :: "event list \<Rightarrow> string option" where
  "rotated_name [] = None"
| "rotated_name (e # es) =
     (case rotated_name es of
        Some n \<Rightarrow> Some n
      | None \<Rightarrow>
          (case e of
             Call_fopen n m fh \<Rightarrow> if fh \<noteq> NULL then Some n else None
           | _ \<Rightarrow> None))"

text \<open>
  From \<open>s\<close> to \<open>s'\<close> the trace has only grown, no file was opened with success, and the
  file in use and the recorded time of the last rotation are the same.
\<close>

definition no_rotation :: "syslogger \<Rightarrow> syslogger \<Rightarrow> bool" where
  "no_rotation s s' \<longleftrightarrow>
     (\<exists>es. trace s' = trace s @ es \<and> rotated_name es = None) \<and>
     syslogFile s' = syslogFile s \<and> last_rotation_time s' = last_rotation_time s \<and>
     DataDir s' = DataDir s \<and> PostmasterPid s' = PostmasterPid s"

text \<open>
  From \<open>s\<close> to \<open>s'\<close> the trace has only grown, and unless a file was opened with success
  on the way, the file in use is the same.
\<close>

definition replaced_by_rotation_only :: "syslogger \<Rightarrow> syslogger \<Rightarrow> bool" where
  "replaced_by_rotation_only s s' \<longleftrightarrow>
     (\<exists>es. trace s' = trace s @ es \<and>
        (rotated_name es = None \<longrightarrow> syslogFile s' = syslogFile s))"

text \<open>
  If a rotation has opened the file in use, it opened it under the name that
  \<open>logfile_getname\<close> builds from \<open>last_rotation_time\<close> (with the directory and the prefix
  that were configured then).
\<close>

definition name_matches_time :: "'tm platform \<Rightarrow> syslogger \<Rightarrow> bool" where
  "name_matches_time P s \<longleftrightarrow>
     (\<forall>n. rotated_name (trace s) = Some n \<longrightarrow>
        (\<exists>d p. n = logfile_getname P (s\<lparr>Log_directory := d, Log_filename_prefix := p\<rparr>)
                     (last_rotation_time s)))"

subsection \<open>Concrete inputs\<close>

text \<open>
  A platform with the usual \<open>MAXPGPATH\<close> of 1024 and the POSIX test for an absolute
  path; the two time routines are stand-ins that know two instants.
\<close>

definition example_platform :: "pg_time_t platform" where
  "example_platform =
     \<lparr>MAXPGPATH = 1024,
      is_absolute_path = (\<lambda>p. take 1 p = ''/''),
      pg_localtime = (\<lambda>t. t),
      pg_strftime = (\<lambda>n fmt t. if t = 1091793600 then ''2004-08-06_120000''
                                else ''2004-08-07_120000'')\<rparr>"

text \<open>The collector with the default settings, one second after its start.\<close>

definition example_state :: syslogger where
  "example_state =
     \<lparr>Log_RotationAge = 1440, Log_RotationSize = 10240,
      Log_directory = ''pg_log'', Log_filename_prefix = ''postgresql-'',
      last_rotation_time = 1091793600, pipe_eof_seen = False, syslogFile = 1,
      got_SIGHUP = False, currentLogDir = ''pg_log'',
      DataDir = ''/usr/local/pgsql/data'', PostmasterPid = 4711, trace = []\<rparr>"

text \<open>An iteration in which nothing happens: the wait for the pipe times out.\<close>

definition example_env :: loop_env where
  "example_env =
     \<lparr>config_file =
        \<lparr>guc_Log_RotationAge = 1440, guc_Log_RotationSize = 10240,
         guc_Log_directory = ''pg_log'', guc_Log_filename_prefix = ''postgresql-''\<rparr>,
      time_age_check = 1091793601, ftell_result = (\<lambda>f. 100),
      time_rotate = 1091793601, fopen_result = 2, fopen_errno = 0,
      select_rc = 0, select_errno = 0, select_isset = False,
      piperead_rc = 0, piperead_errno = 0, piperead_buf = [], fwrite_room = 4096\<rparr>"

text \<open>A directory of eight components and 1024 characters, and two directories below it.\<close>

definition long_dir :: string where
  "long_dir = concat (replicate 8 (CHR ''/'' # replicate 127 (CHR ''d'')))"

definition long_dir_a :: string where
  "long_dir_a = long_dir @ ''/a''"

definition long_dir_b :: string where
  "long_dir_b = long_dir @ ''/b''"

text \<open>
  A reload that moves the log directory while both thresholds are 0, in an iteration whose
  \<open>fopen\<close> fails because the process has too many open files.
\<close>

definition emfile_reload_env :: loop_env where
  "emfile_reload_env =
     example_env
       \<lparr>config_file :=
          \<lparr>guc_Log_RotationAge = 0, guc_Log_RotationSize = 0,
           guc_Log_directory = ''/var/log/pgsql'', guc_Log_filename_prefix = ''postgresql-''\<rparr>,
        fopen_result := NULL, fopen_errno := EMFILE\<rparr>"

text \<open>An iteration a day after the last rotation: the age threshold is reached.\<close>

definition next_day_env :: loop_env where
  "next_day_env = example_env\<lparr>time_age_check := 1091880000, time_rotate := 1091880000\<rparr>"

section \<open>Basic facts\<close>

lemma emit_simps [simp]:
  "Log_RotationAge (emit es s) = Log_RotationAge s"
  "Log_RotationSize (emit es s) = Log_RotationSize s"
  "Log_directory (emit es s) = Log_directory s"
  "Log_filename_prefix (emit es s) = Log_filename_prefix s"
  "last_rotation_time (emit es s) = last_rotation_time s"
  "pipe_eof_seen (emit es s) = pipe_eof_seen s"
  "syslogFile (emit es s) = syslogFile s"
  "got_SIGHUP (emit es s) = got_SIGHUP s"
  "currentLogDir (emit es s) = currentLogDir s"
  "DataDir (emit es s) = DataDir s"
  "PostmasterPid (emit es s) = PostmasterPid s"
  "trace (emit es s) = trace s @ es"
  by (simp_all add: emit_def)

lemma ereport_simps [simp]:
  "Log_RotationAge (ereport l m a s) = Log_RotationAge s"
  "Log_RotationSize (ereport l m a s) = Log_RotationSize s"
  "Log_directory (ereport l m a s) = Log_directory s"
  "Log_filename_prefix (ereport l m a s) = Log_filename_prefix s"
  "last_rotation_time (ereport l m a s) = last_rotation_time s"
  "pipe_eof_seen (ereport l m a s) = pipe_eof_seen s"
  "syslogFile (ereport l m a s) = syslogFile s"
  "got_SIGHUP (ereport l m a s) = got_SIGHUP s"
  "currentLogDir (ereport l m a s) = currentLogDir s"
  "DataDir (ereport l m a s) = DataDir s"
  "PostmasterPid (ereport l m a s) = PostmasterPid s"
  "trace (ereport l m a s) = trace s @ [Ereport l m a]"
  by (simp_all add: ereport_def)

lemma emit_trace_reset [simp]: "(emit es s)\<lparr>trace := t\<rparr> = s\<lparr>trace := t\<rparr>"
  by (simp add: emit_def)

lemma ereport_trace_reset [simp]: "(ereport l m a s)\<lparr>trace := t\<rparr> = s\<lparr>trace := t\<rparr>"
  by (simp add: ereport_def)

lemma logfile_getname_emit [simp]:
  "logfile_getname P (emit es s) ts = logfile_getname P s ts"
  by (simp add: logfile_getname_def Let_def)

lemma logfile_getname_ereport [simp]:
  "logfile_getname P (ereport l m a s) ts = logfile_getname P s ts"
  by (simp add: logfile_getname_def Let_def)

subsection \<open>What each part of the loop leaves alone\<close>

lemma write_syslogger_file_frame [simp]:
  "(write_syslogger_file env b c s)\<lparr>trace := t\<rparr> = s\<lparr>trace := t\<rparr>"
  by (simp add: write_syslogger_file_def Let_def)

lemma write_syslogger_file_fields [simp]:
  "Log_RotationAge (write_syslogger_file env b c s) = Log_RotationAge s"
  "Log_RotationSize (write_syslogger_file env b c s) = Log_RotationSize s"
  "last_rotation_time (write_syslogger_file env b c s) = last_rotation_time s"
  "pipe_eof_seen (write_syslogger_file env b c s) = pipe_eof_seen s"
  "syslogFile (write_syslogger_file env b c s) = syslogFile s"
  "got_SIGHUP (write_syslogger_file env b c s) = got_SIGHUP s"
  by (simp_all add: write_syslogger_file_def Let_def)

lemma reload_fields [simp]:
  "last_rotation_time (snd (SysLoggerMain_reload P env s)) = last_rotation_time s"
  "pipe_eof_seen (snd (SysLoggerMain_reload P env s)) = pipe_eof_seen s"
  "syslogFile (snd (SysLoggerMain_reload P env s)) = syslogFile s"
  by (simp_all add: SysLoggerMain_reload_def ProcessConfigFile_def Let_def)

lemma age_check_frame [simp]:
  "(snd (SysLoggerMain_age_check env rs))\<lparr>trace := t\<rparr> = (snd rs)\<lparr>trace := t\<rparr>"
  by (simp add: SysLoggerMain_age_check_def Let_def)

lemma size_check_frame [simp]:
  "(snd (SysLoggerMain_size_check env rs))\<lparr>trace := t\<rparr> = (snd rs)\<lparr>trace := t\<rparr>"
  by (simp add: SysLoggerMain_size_check_def Let_def)

lemma age_check_fields [simp]:
  "Log_RotationAge (snd (SysLoggerMain_age_check env rs)) = Log_RotationAge (snd rs)"
  "Log_RotationSize (snd (SysLoggerMain_age_check env rs)) = Log_RotationSize (snd rs)"
  "last_rotation_time (snd (SysLoggerMain_age_check env rs)) = last_rotation_time (snd rs)"
  "pipe_eof_seen (snd (SysLoggerMain_age_check env rs)) = pipe_eof_seen (snd rs)"
  "syslogFile (snd (SysLoggerMain_age_check env rs)) = syslogFile (snd rs)"
  "got_SIGHUP (snd (SysLoggerMain_age_check env rs)) = got_SIGHUP (snd rs)"
  by (simp_all add: SysLoggerMain_age_check_def Let_def)

lemma size_check_fields [simp]:
  "Log_RotationAge (snd (SysLoggerMain_size_check env rs)) = Log_RotationAge (snd rs)"
  "Log_RotationSize (snd (SysLoggerMain_size_check env rs)) = Log_RotationSize (snd rs)"
  "last_rotation_time (snd (SysLoggerMain_size_check env rs)) = last_rotation_time (snd rs)"
  "pipe_eof_seen (snd (SysLoggerMain_size_check env rs)) = pipe_eof_seen (snd rs)"
  "syslogFile (snd (SysLoggerMain_size_check env rs)) = syslogFile (snd rs)"
  "got_SIGHUP (snd (SysLoggerMain_size_check env rs)) = got_SIGHUP (snd rs)"
  by (simp_all add: SysLoggerMain_size_check_def Let_def)

lemma checks_fields [simp]:
  "last_rotation_time (snd (SysLoggerMain_checks P env s)) = last_rotation_time s"
  "pipe_eof_seen (snd (SysLoggerMain_checks P env s)) = pipe_eof_seen s"
  "syslogFile (snd (SysLoggerMain_checks P env s)) = syslogFile s"
  "Log_RotationAge (snd (SysLoggerMain_checks P env s)) =
     Log_RotationAge (snd (SysLoggerMain_reload P env s))"
  "Log_RotationSize (snd (SysLoggerMain_checks P env s)) =
     Log_RotationSize (snd (SysLoggerMain_reload P env s))"
  by (simp_all add: SysLoggerMain_checks_def)

lemma logfile_rotate_fields [simp]:
  "pipe_eof_seen (logfile_rotate P env s) = pipe_eof_seen s"
  "got_SIGHUP (logfile_rotate P env s) = got_SIGHUP s"
  "currentLogDir (logfile_rotate P env s) = currentLogDir s"
  "Log_directory (logfile_rotate P env s) = Log_directory s"
  by (simp_all add: logfile_rotate_def Let_def)

lemma drain_fields [simp]:
  "Log_RotationAge (snd (SysLoggerMain_drain env s)) = Log_RotationAge s"
  "Log_RotationSize (snd (SysLoggerMain_drain env s)) = Log_RotationSize s"
  "last_rotation_time (snd (SysLoggerMain_drain env s)) = last_rotation_time s"
  "syslogFile (snd (SysLoggerMain_drain env s)) = syslogFile s"
  "got_SIGHUP (snd (SysLoggerMain_drain env s)) = got_SIGHUP s"
  by (simp_all add: SysLoggerMain_drain_def Let_def)

lemma finish_fields [simp]:
  "Log_RotationAge (state_of (SysLoggerMain_finish ds)) = Log_RotationAge (snd ds)"
  "Log_RotationSize (state_of (SysLoggerMain_finish ds)) = Log_RotationSize (snd ds)"
  "last_rotation_time (state_of (SysLoggerMain_finish ds)) = last_rotation_time (snd ds)"
  "syslogFile (state_of (SysLoggerMain_finish ds)) = syslogFile (snd ds)"
  "pipe_eof_seen (state_of (SysLoggerMain_finish ds)) = pipe_eof_seen (snd ds)"
  "got_SIGHUP (state_of (SysLoggerMain_finish ds)) = got_SIGHUP (snd ds)"
  by (simp_all add: SysLoggerMain_finish_def proc_exit_def)

lemma rotation_cases:
  "SysLoggerMain_rotation P env s =
     (if fst (SysLoggerMain_checks P env s)
      then logfile_rotate P env (snd (SysLoggerMain_checks P env s))
      else snd (SysLoggerMain_checks P env s))"
  by (simp add: SysLoggerMain_rotation_def Let_def)

lemma logfile_rotate_success:
  assumes "fopen_result env \<noteq> NULL"
  shows "logfile_rotate P env s =
     (emit [Call_time,
            Call_fopen (logfile_getname P s (time_rotate env)) ''a'' (fopen_result env),
            Call_setvbuf (fopen_result env), Call_fclose (syslogFile s)] s)
       \<lparr>syslogFile := fopen_result env, last_rotation_time := time_rotate env\<rparr>"
  using assms by (simp add: logfile_rotate_def Let_def emit_def)

lemma logfile_rotate_failure:
  assumes "fopen_result env = NULL"
  shows "last_rotation_time (logfile_rotate P env s) = last_rotation_time s"
    and "syslogFile (logfile_rotate P env s) = syslogFile s"
  using assms by (simp_all add: logfile_rotate_def Let_def)

section \<open>C1: an open failure other than ENFILE or EMFILE disables the rotation\<close>

lemma keeps_disabled_refl: "keeps_disabled s s"
  by (simp add: keeps_disabled_def)

lemma keeps_disabled_trans:
  "keeps_disabled s t \<Longrightarrow> keeps_disabled t u \<Longrightarrow> keeps_disabled s u"
  unfolding keeps_disabled_def by (elim exE conjE) (rule_tac x="es @ esa" in exI, auto)

lemma keeps_disabled_rotate: "keeps_disabled s (logfile_rotate P env s)"
  by (simp add: keeps_disabled_def logfile_rotate_def Let_def)

lemma keeps_disabled_reload: "keeps_disabled s (snd (SysLoggerMain_reload P env s))"
  by (simp add: keeps_disabled_def SysLoggerMain_reload_def ProcessConfigFile_def Let_def)

lemma keeps_disabled_age: "keeps_disabled (snd rs) (snd (SysLoggerMain_age_check env rs))"
  by (simp add: keeps_disabled_def SysLoggerMain_age_check_def Let_def)

lemma keeps_disabled_size: "keeps_disabled (snd rs) (snd (SysLoggerMain_size_check env rs))"
  by (simp add: keeps_disabled_def SysLoggerMain_size_check_def Let_def)

lemma keeps_disabled_checks: "keeps_disabled s (snd (SysLoggerMain_checks P env s))"
  unfolding SysLoggerMain_checks_def
  by (blast intro: keeps_disabled_trans keeps_disabled_reload keeps_disabled_age
      keeps_disabled_size)

lemma keeps_disabled_rotation: "keeps_disabled s (SysLoggerMain_rotation P env s)"
  using keeps_disabled_checks [of s P env]
    keeps_disabled_rotate [of "snd (SysLoggerMain_checks P env s)" P env]
  by (auto simp: rotation_cases intro: keeps_disabled_trans)

lemma keeps_disabled_drain: "keeps_disabled s (snd (SysLoggerMain_drain env s))"
  by (simp add: keeps_disabled_def SysLoggerMain_drain_def write_syslogger_file_def Let_def)

lemma keeps_disabled_finish: "keeps_disabled (snd ds) (state_of (SysLoggerMain_finish ds))"
  by (simp add: keeps_disabled_def SysLoggerMain_finish_def proc_exit_def)

lemma keeps_disabled_iteration: "keeps_disabled s (state_of (SysLoggerMain_iteration P env s))"
  unfolding SysLoggerMain_iteration_def
  by (blast intro: keeps_disabled_trans keeps_disabled_rotation keeps_disabled_drain
      keeps_disabled_finish)

lemma keeps_disabled_loop: "keeps_disabled s (state_of (SysLoggerMain_loop P steps s))"
proof (induction steps arbitrary: s)
  case Nil
  show ?case by (simp add: keeps_disabled_refl)
next
  case (Cons a steps)
  show ?case
  proof (cases a)
    case Signal_SIGHUP
    have "keeps_disabled s (sigHupHandler s)"
      by (simp add: keeps_disabled_def sigHupHandler_def)
    then show ?thesis
      using Cons.IH [of "sigHupHandler s"] Signal_SIGHUP
      by (auto intro: keeps_disabled_trans)
  next
    case (Iteration env)
    show ?thesis
    proof (cases "SysLoggerMain_iteration P env s")
      case (Running s')
      then have "keeps_disabled s s'"
        using keeps_disabled_iteration [of s P env] by simp
      then show ?thesis
        using Cons.IH [of s'] Iteration Running by (auto intro: keeps_disabled_trans)
    next
      case (Exited c s')
      then show ?thesis
        using keeps_disabled_iteration [of s P env] Iteration by simp
    qed
  qed
qed

text \<open>
  Claim C1. When \<open>fopen\<close> fails in \<open>logfile_rotate\<close> with an error other than \<open>ENFILE\<close>
  and \<open>EMFILE\<close>, the function sets \<open>Log_RotationAge\<close> and \<open>Log_RotationSize\<close> to 0, keeps
  \<open>syslogFile\<close> (and \<open>last_rotation_time\<close>), closes nothing, and reports first the failure
  and then that the rotation is disabled. Whatever the loop does afterwards, signals
  included, both values are still 0 as long as the trace shows no further call of
  \<open>ProcessConfigFile\<close>.
\<close>

theorem logfile_rotate_open_failure_disables:
  assumes "fopen_result env = NULL"
    and "fopen_errno env \<noteq> ENFILE" and "fopen_errno env \<noteq> EMFILE"
  shows "Log_RotationAge (logfile_rotate P env s) = 0 \<and>
         Log_RotationSize (logfile_rotate P env s) = 0 \<and>
         syslogFile (logfile_rotate P env s) = syslogFile s \<and>
         last_rotation_time (logfile_rotate P env s) = last_rotation_time s \<and>
         trace (logfile_rotate P env s) = trace s @
           [Call_time,
            Call_fopen (logfile_getname P s (time_rotate env)) ''a'' NULL,
            Ereport LOG ''could not open new logfile \"%s\": %m''
              [logfile_getname P s (time_rotate env)],
            Ereport LOG ''disabling auto rotation (use SIGHUP to reenable)'' []] \<and>
         (\<forall>steps es.
            trace (state_of (SysLoggerMain_loop P steps (logfile_rotate P env s))) =
              trace (logfile_rotate P env s) @ es \<and> Call_ProcessConfigFile \<notin> set es \<longrightarrow>
            Log_RotationAge (state_of (SysLoggerMain_loop P steps (logfile_rotate P env s))) = 0 \<and>
            Log_RotationSize (state_of (SysLoggerMain_loop P steps (logfile_rotate P env s))) = 0)"
proof -
  let ?s' = "logfile_rotate P env s"
  have zero: "Log_RotationAge ?s' = 0" "Log_RotationSize ?s' = 0"
    using assms by (simp_all add: logfile_rotate_def Let_def)
  have rest: "syslogFile ?s' = syslogFile s" "last_rotation_time ?s' = last_rotation_time s"
    "trace ?s' = trace s @
           [Call_time,
            Call_fopen (logfile_getname P s (time_rotate env)) ''a'' NULL,
            Ereport LOG ''could not open new logfile \"%s\": %m''
              [logfile_getname P s (time_rotate env)],
            Ereport LOG ''disabling auto rotation (use SIGHUP to reenable)'' []]"
    using assms by (simp_all add: logfile_rotate_def Let_def)
  have later: "Log_RotationAge (state_of (SysLoggerMain_loop P steps ?s')) = 0 \<and>
      Log_RotationSize (state_of (SysLoggerMain_loop P steps ?s')) = 0"
    if "trace (state_of (SysLoggerMain_loop P steps ?s')) = trace ?s' @ es"
      and "Call_ProcessConfigFile \<notin> set es" for steps es
    using keeps_disabled_loop [of ?s' P steps] zero that
    by (auto simp: keeps_disabled_def)
  show ?thesis using zero rest later by blast
qed

lemmas example_defs =
  example_env_def example_state_def example_platform_def NULL_def ENFILE_def EMFILE_def
  EINTR_def

lemmas SysLoggerMain_defs =
  SysLoggerMain_iteration_def SysLoggerMain_rotation_def SysLoggerMain_checks_def
  SysLoggerMain_reload_def SysLoggerMain_age_check_def SysLoggerMain_size_check_def
  SysLoggerMain_drain_def SysLoggerMain_finish_def ProcessConfigFile_def proc_exit_def
  logfile_rotate_def write_syslogger_file_def sigHupHandler_def emit_def ereport_def Let_def
  word_sless_alt word_sle_eq

theorem logfile_rotate_open_failure_disables_witness:
  "fopen_result (example_env\<lparr>fopen_result := NULL, fopen_errno := 13\<rparr>) = NULL \<and>
   fopen_errno (example_env\<lparr>fopen_result := NULL, fopen_errno := 13\<rparr>) \<noteq> ENFILE \<and>
   fopen_errno (example_env\<lparr>fopen_result := NULL, fopen_errno := 13\<rparr>) \<noteq> EMFILE \<and>
   Log_RotationAge (logfile_rotate example_platform
     (example_env\<lparr>fopen_result := NULL, fopen_errno := 13\<rparr>) example_state) = 0 \<and>
   Log_RotationSize (state_of (SysLoggerMain_loop example_platform
     [Iteration example_env, Signal_SIGHUP]
     (logfile_rotate example_platform
        (example_env\<lparr>fopen_result := NULL, fopen_errno := 13\<rparr>) example_state))) = 0"
proof -
  let ?env = "example_env\<lparr>fopen_result := NULL, fopen_errno := 13\<rparr>"
  let ?s' = "logfile_rotate example_platform ?env example_state"
  have h: "fopen_result ?env = NULL" "fopen_errno ?env \<noteq> ENFILE" "fopen_errno ?env \<noteq> EMFILE"
    by (simp_all add: example_defs)
  have t: "trace (state_of (SysLoggerMain_loop example_platform
              [Iteration example_env, Signal_SIGHUP] ?s')) = trace ?s' @ [Call_select] \<and>
           Call_ProcessConfigFile \<notin> set [Call_select]"
    by (simp add: example_defs SysLoggerMain_defs)
  show ?thesis
    using h t logfile_rotate_open_failure_disables [OF h, of example_platform example_state]
    by blast
qed

subsection \<open>The string routines\<close>

lemma strncmp_eq_0_iff: "strncmp a b n = 0 \<longleftrightarrow> take n a = take n b"
  by (induction a b n rule: strncmp.induct) auto

declare strncmp.simps [simp del]

lemma digit_chars:
  "char_of (48::nat) = CHR ''0''" "char_of (49::nat) = CHR ''1''"
  "char_of (50::nat) = CHR ''2''" "char_of (51::nat) = CHR ''3''"
  "char_of (52::nat) = CHR ''4''" "char_of (53::nat) = CHR ''5''"
  "char_of (54::nat) = CHR ''6''" "char_of (55::nat) = CHR ''7''"
  "char_of (56::nat) = CHR ''8''" "char_of (57::nat) = CHR ''9''"
  by code_simp+

section \<open>C5: an open failure with ENFILE or EMFILE changes nothing\<close>

lemma age_check_emit:
  "fst (SysLoggerMain_age_check env (rr, emit es s)) = fst (SysLoggerMain_age_check env (rr, s))"
  by (simp add: SysLoggerMain_age_check_def Let_def)

lemma size_check_trace_irrelevant:
  assumes "s1\<lparr>trace := t\<rparr> = s2\<lparr>trace := t\<rparr>"
  shows "fst (SysLoggerMain_size_check env (rr, s1)) = fst (SysLoggerMain_size_check env (rr, s2))"
proof -
  have "Log_RotationSize (s1\<lparr>trace := t\<rparr>) = Log_RotationSize (s2\<lparr>trace := t\<rparr>)"
    "syslogFile (s1\<lparr>trace := t\<rparr>) = syslogFile (s2\<lparr>trace := t\<rparr>)"
    using assms by simp_all
  then show ?thesis
    by (simp add: SysLoggerMain_size_check_def Let_def)
qed

lemma age_check_trace_irrelevant:
  assumes "s1\<lparr>trace := t\<rparr> = s2\<lparr>trace := t\<rparr>"
  shows "fst (SysLoggerMain_age_check env (rr, s1)) = fst (SysLoggerMain_age_check env (rr, s2))"
proof -
  have "Log_RotationAge (s1\<lparr>trace := t\<rparr>) = Log_RotationAge (s2\<lparr>trace := t\<rparr>)"
    "last_rotation_time (s1\<lparr>trace := t\<rparr>) = last_rotation_time (s2\<lparr>trace := t\<rparr>)"
    using assms by simp_all
  then show ?thesis
    by (simp add: SysLoggerMain_age_check_def Let_def)
qed

lemma age_size_trace_irrelevant:
  assumes "s1\<lparr>trace := t\<rparr> = s2\<lparr>trace := t\<rparr>"
  shows "fst (SysLoggerMain_size_check env (SysLoggerMain_age_check env (False, s1))) =
         fst (SysLoggerMain_size_check env (SysLoggerMain_age_check env (False, s2)))"
proof -
  let ?a1 = "SysLoggerMain_age_check env (False, s1)"
  let ?a2 = "SysLoggerMain_age_check env (False, s2)"
  have f: "fst ?a1 = fst ?a2"
    using assms by (rule age_check_trace_irrelevant)
  have "(snd ?a1)\<lparr>trace := t\<rparr> = (snd ?a2)\<lparr>trace := t\<rparr>"
    using assms by simp
  then have "fst (SysLoggerMain_size_check env (fst ?a1, snd ?a1)) =
             fst (SysLoggerMain_size_check env (fst ?a1, snd ?a2))"
    by (rule size_check_trace_irrelevant)
  then have "fst (SysLoggerMain_size_check env ?a1) = fst (SysLoggerMain_size_check env (fst ?a1, snd ?a2))"
    by simp
  also have "(fst ?a1, snd ?a2) = ?a2"
    using f by simp
  finally show ?thesis .
qed

text \<open>
  When \<open>fopen\<close> fails in \<open>logfile_rotate\<close> with \<open>ENFILE\<close> or \<open>EMFILE\<close>, the state on return
  is the state before but for the trace, which has gained the clock reading, the \<open>fopen\<close>
  and one diagnostic: \<open>syslogFile\<close>, \<open>Log_RotationAge\<close>, \<open>Log_RotationSize\<close> and
  \<open>last_rotation_time\<close> are as before. The next write goes to the old file, and the age
  and size checks answer on the returned state as they do on the state before.
\<close>

lemma logfile_rotate_fd_exhaustion_frame:
  assumes "fopen_result env = NULL"
    and "fopen_errno env = ENFILE \<or> fopen_errno env = EMFILE"
  shows "(logfile_rotate P env s)\<lparr>trace := trace s\<rparr> = s \<and>
         trace (logfile_rotate P env s) = trace s @
           [Call_time,
            Call_fopen (logfile_getname P s (time_rotate env)) ''a'' NULL,
            Ereport LOG ''could not open new logfile \"%s\": %m''
              [logfile_getname P s (time_rotate env)]] \<and>
         syslogFile (logfile_rotate P env s) = syslogFile s \<and>
         Log_RotationAge (logfile_rotate P env s) = Log_RotationAge s \<and>
         Log_RotationSize (logfile_rotate P env s) = Log_RotationSize s \<and>
         last_rotation_time (logfile_rotate P env s) = last_rotation_time s \<and>
         (\<forall>env' buffer count.
            trace (write_syslogger_file env' buffer count (logfile_rotate P env s))
              ! length (trace (logfile_rotate P env s)) =
            Call_fwrite (syslogFile s) (take (unat (scast count :: size_t)) buffer)) \<and>
         (\<forall>env'.
            fst (SysLoggerMain_size_check env'
                  (SysLoggerMain_age_check env' (False, logfile_rotate P env s))) =
            fst (SysLoggerMain_size_check env' (SysLoggerMain_age_check env' (False, s))))"
proof -
  let ?name = "logfile_getname P s (time_rotate env)"
  let ?s' = "logfile_rotate P env s"
  have eq: "?s' = ereport LOG ''could not open new logfile \"%s\": %m'' [?name]
                    (emit [Call_time, Call_fopen ?name ''a'' NULL] s)"
    using assms by (auto simp: logfile_rotate_def Let_def)
  have frame: "?s'\<lparr>trace := trace s\<rparr> = s"
    unfolding eq by simp
  have tr: "trace ?s' = trace s @
      [Call_time, Call_fopen ?name ''a'' NULL,
       Ereport LOG ''could not open new logfile \"%s\": %m'' [?name]]"
    unfolding eq by simp
  have fields: "syslogFile ?s' = syslogFile s" "Log_RotationAge ?s' = Log_RotationAge s"
    "Log_RotationSize ?s' = Log_RotationSize s" "last_rotation_time ?s' = last_rotation_time s"
    unfolding eq by simp_all
  have wr: "trace (write_syslogger_file env' buffer count ?s') ! length (trace ?s') =
            Call_fwrite (syslogFile s) (take (unat (scast count :: size_t)) buffer)"
    for env' buffer count
    by (simp add: write_syslogger_file_def Let_def fields nth_append)
  have "?s'\<lparr>trace := trace s\<rparr> = s\<lparr>trace := trace s\<rparr>"
    using frame by simp
  then have again: "fst (SysLoggerMain_size_check env'
                  (SysLoggerMain_age_check env' (False, ?s'))) =
            fst (SysLoggerMain_size_check env' (SysLoggerMain_age_check env' (False, s)))"
    for env'
    by (rule age_size_trace_irrelevant)
  show ?thesis
    by (intro conjI allI frame tr fields wr again)
qed

text \<open>
  Without a pending reload and with both thresholds at 0, the checks request no rotation
  and do nothing, whatever the clock and the file position.
\<close>

lemma disabled_requests_nothing:
  assumes "\<not> got_SIGHUP s" and "Log_RotationAge s = 0" and "Log_RotationSize s = 0"
  shows "SysLoggerMain_checks P env s = (False, s)"
  using assms
  by (simp add: SysLoggerMain_checks_def SysLoggerMain_reload_def SysLoggerMain_age_check_def
      SysLoggerMain_size_check_def Let_def word_sless_alt)

text \<open>
  A rotation that the age asked for is asked for again after a failure with \<open>EMFILE\<close>: a
  day after the last rotation, the iteration after the failed one requests a rotation
  as the failed one did.
\<close>

lemma age_rotation_retried:
  "fst (SysLoggerMain_checks example_platform
          (next_day_env\<lparr>fopen_result := NULL, fopen_errno := EMFILE\<rparr>) example_state) \<and>
   fst (SysLoggerMain_checks example_platform
          (next_day_env\<lparr>fopen_result := NULL, fopen_errno := EMFILE\<rparr>)
          (state_of (SysLoggerMain_iteration example_platform
             (next_day_env\<lparr>fopen_result := NULL, fopen_errno := EMFILE\<rparr>) example_state)))"
  by (simp add: next_day_env_def example_defs SysLoggerMain_defs)

text \<open>
  Claim C5 at a failing input. A reload has moved the log directory to
  \<open>/var/log/pgsql\<close> and set both thresholds to 0, and the \<open>fopen\<close> of the rotation that the
  reload requests fails with \<open>EMFILE\<close>. \<open>logfile_rotate\<close> returns with the state as it
  was, but the loop has cleared the latch and copied the new directory into
  \<open>currentLogDir\<close> before the call: the iteration ends with the new directory configured
  and the old file in use, the checks of any later iteration request nothing, and the
  next iteration does no more than wait for the pipe.
\<close>

theorem directory_rotation_not_retried:
  "fopen_result emfile_reload_env = NULL \<and> fopen_errno emfile_reload_env = EMFILE \<and>
   fst (SysLoggerMain_checks example_platform emfile_reload_env (sigHupHandler example_state)) \<and>
   \<not> fst (SysLoggerMain_checks example_platform emfile_reload_env
          (state_of (SysLoggerMain_iteration example_platform emfile_reload_env
             (sigHupHandler example_state)))) \<and>
   Log_directory (state_of (SysLoggerMain_iteration example_platform emfile_reload_env
             (sigHupHandler example_state))) = ''/var/log/pgsql'' \<and>
   currentLogDir (state_of (SysLoggerMain_iteration example_platform emfile_reload_env
             (sigHupHandler example_state))) = ''/var/log/pgsql'' \<and>
   syslogFile (state_of (SysLoggerMain_iteration example_platform emfile_reload_env
             (sigHupHandler example_state))) = syslogFile example_state \<and>
   fst (SysLoggerMain_reload example_platform emfile_reload_env (sigHupHandler example_state)) \<and>
   SysLoggerMain_iteration example_platform emfile_reload_env (sigHupHandler example_state) =
     Running (example_state
       \<lparr>Log_RotationAge := 0, Log_RotationSize := 0, Log_directory := ''/var/log/pgsql'',
        currentLogDir := ''/var/log/pgsql'',
        trace :=
          [Call_ProcessConfigFile, Call_time,
           Call_fopen ''/var/log/pgsql/postgresql-04711_2004-08-07_120000.log'' ''a'' NULL,
           Ereport LOG ''could not open new logfile \"%s\": %m''
             [''/var/log/pgsql/postgresql-04711_2004-08-07_120000.log''],
           Call_select]\<rparr>) \<and>
   (\<forall>env. SysLoggerMain_checks example_platform env
            (state_of (SysLoggerMain_iteration example_platform emfile_reload_env
               (sigHupHandler example_state))) =
          (False, state_of (SysLoggerMain_iteration example_platform emfile_reload_env
               (sigHupHandler example_state)))) \<and>
   trace (state_of (SysLoggerMain_iteration example_platform emfile_reload_env
      (state_of (SysLoggerMain_iteration example_platform emfile_reload_env
         (sigHupHandler example_state))))) =
     trace (state_of (SysLoggerMain_iteration example_platform emfile_reload_env
         (sigHupHandler example_state))) @ [Call_select]"
proof -
  let ?s1 = "state_of (SysLoggerMain_iteration example_platform emfile_reload_env
             (sigHupHandler example_state))"
  have it: "SysLoggerMain_iteration example_platform emfile_reload_env
      (sigHupHandler example_state) =
     Running (example_state
       \<lparr>Log_RotationAge := 0, Log_RotationSize := 0, Log_directory := ''/var/log/pgsql'',
        currentLogDir := ''/var/log/pgsql'',
        trace :=
          [Call_ProcessConfigFile, Call_time,
           Call_fopen ''/var/log/pgsql/postgresql-04711_2004-08-07_120000.log'' ''a'' NULL,
           Ereport LOG ''could not open new logfile \"%s\": %m''
             [''/var/log/pgsql/postgresql-04711_2004-08-07_120000.log''],
           Call_select]\<rparr>)"
    by (simp add: emfile_reload_env_def example_defs SysLoggerMain_defs strncpy_def
        strncmp_eq_0_iff logfile_getname_def snprintf_def zero_pad_def utoa.simps digit_chars)
  have old: "fopen_result emfile_reload_env = NULL" "fopen_errno emfile_reload_env = EMFILE"
    "fst (SysLoggerMain_checks example_platform emfile_reload_env (sigHupHandler example_state))"
    "fst (SysLoggerMain_reload example_platform emfile_reload_env (sigHupHandler example_state))"
    by (simp_all add: emfile_reload_env_def example_defs SysLoggerMain_defs strncpy_def
        strncmp_eq_0_iff)
  have s1: "\<not> got_SIGHUP ?s1" "Log_RotationAge ?s1 = 0" "Log_RotationSize ?s1 = 0"
    "Log_directory ?s1 = ''/var/log/pgsql''" "currentLogDir ?s1 = ''/var/log/pgsql''"
    "syslogFile ?s1 = syslogFile example_state"
    unfolding it by (simp_all add: example_defs)
  have never: "SysLoggerMain_checks example_platform env ?s1 = (False, ?s1)" for env
    using s1(1-3) by (rule disabled_requests_nothing)
  have next_it: "trace (state_of (SysLoggerMain_iteration example_platform emfile_reload_env ?s1))
      = trace ?s1 @ [Call_select]"
    unfolding it state_of.simps
    by (simp add: emfile_reload_env_def example_defs SysLoggerMain_defs)
  have not_again: "\<not> fst (SysLoggerMain_checks example_platform emfile_reload_env ?s1)"
    by (simp only: never fst_conv not_False_eq_True)
  show ?thesis
    by (intro conjI allI old(1) old(2) old(3) not_again s1(4) s1(5) s1(6) old(4) it never
        next_it)
qed

section \<open>Which parts of the loop open a file\<close>

lemma rotated_name_append:
  "rotated_name (xs @ ys) =
     (case rotated_name ys of Some n \<Rightarrow> Some n | None \<Rightarrow> rotated_name xs)"
  by (induction xs) (auto split: option.splits)

lemma no_rotation_refl: "no_rotation s s"
  by (simp add: no_rotation_def)

lemma no_rotation_trans:
  assumes "no_rotation s t" and "no_rotation t u"
  shows "no_rotation s u"
proof -
  obtain es where es: "trace t = trace s @ es" "rotated_name es = None"
    using assms(1) by (auto simp: no_rotation_def)
  obtain fs where fs: "trace u = trace t @ fs" "rotated_name fs = None"
    using assms(2) by (auto simp: no_rotation_def)
  have "trace u = trace s @ (es @ fs)" "rotated_name (es @ fs) = None"
    using es fs by (simp_all add: rotated_name_append)
  then have "\<exists>gs. trace u = trace s @ gs \<and> rotated_name gs = None"
    by blast
  then show ?thesis
    using assms by (simp add: no_rotation_def)
qed

lemma no_rotation_sigHup: "no_rotation s (sigHupHandler s)"
  by (simp add: no_rotation_def sigHupHandler_def)

lemma no_rotation_write: "no_rotation s (write_syslogger_file env b c s)"
  by (simp add: no_rotation_def write_syslogger_file_def Let_def)

lemma no_rotation_reload: "no_rotation s (snd (SysLoggerMain_reload P env s))"
  by (simp add: no_rotation_def SysLoggerMain_reload_def ProcessConfigFile_def Let_def)

lemma no_rotation_age: "no_rotation (snd rs) (snd (SysLoggerMain_age_check env rs))"
  by (simp add: no_rotation_def SysLoggerMain_age_check_def Let_def)

lemma no_rotation_size: "no_rotation (snd rs) (snd (SysLoggerMain_size_check env rs))"
  by (simp add: no_rotation_def SysLoggerMain_size_check_def Let_def)

lemma no_rotation_checks: "no_rotation s (snd (SysLoggerMain_checks P env s))"
  unfolding SysLoggerMain_checks_def
  by (blast intro: no_rotation_trans no_rotation_reload no_rotation_age no_rotation_size)

lemma no_rotation_drain: "no_rotation s (snd (SysLoggerMain_drain env s))"
  by (simp add: no_rotation_def SysLoggerMain_drain_def write_syslogger_file_def Let_def)

lemma no_rotation_finish: "no_rotation (snd ds) (state_of (SysLoggerMain_finish ds))"
  by (simp add: no_rotation_def SysLoggerMain_finish_def proc_exit_def)

lemma no_rotation_failed_rotate:
  assumes "fopen_result env = NULL"
  shows "no_rotation s (logfile_rotate P env s)"
  using assms by (simp add: no_rotation_def logfile_rotate_def Let_def)

lemma no_rotation_iteration:
  assumes "\<not> (fst (SysLoggerMain_checks P env s) \<and> fopen_result env \<noteq> NULL)"
  shows "no_rotation s (state_of (SysLoggerMain_iteration P env s))"
proof -
  have "no_rotation s (SysLoggerMain_rotation P env s)"
    using assms no_rotation_checks [of s P env]
      no_rotation_failed_rotate [of env "snd (SysLoggerMain_checks P env s)" P]
    by (auto simp: rotation_cases intro: no_rotation_trans)
  then show ?thesis
    unfolding SysLoggerMain_iteration_def
    by (blast intro: no_rotation_trans no_rotation_drain no_rotation_finish)
qed

lemma logfile_getname_cong:
  assumes "Log_directory s1 = Log_directory s2"
    and "Log_filename_prefix s1 = Log_filename_prefix s2"
    and "DataDir s1 = DataDir s2" and "PostmasterPid s1 = PostmasterPid s2"
  shows "logfile_getname P s1 ts = logfile_getname P s2 ts"
  using assms by (simp add: logfile_getname_def Let_def)

lemma name_matches_time_no_rotation:
  assumes "name_matches_time P s" and "no_rotation s s'"
  shows "name_matches_time P s'"
proof -
  obtain es where es: "trace s' = trace s @ es" "rotated_name es = None"
    using assms(2) by (auto simp: no_rotation_def)
  have same: "last_rotation_time s' = last_rotation_time s" "DataDir s' = DataDir s"
    "PostmasterPid s' = PostmasterPid s"
    using assms(2) by (simp_all add: no_rotation_def)
  have rn: "rotated_name (trace s') = rotated_name (trace s)"
    using es by (simp add: rotated_name_append)
  have nm: "logfile_getname P (s'\<lparr>Log_directory := d, Log_filename_prefix := p\<rparr>) ts =
            logfile_getname P (s\<lparr>Log_directory := d, Log_filename_prefix := p\<rparr>) ts"
    for d p ts
    by (rule logfile_getname_cong) (simp_all add: same)
  show ?thesis
    using assms(1) unfolding name_matches_time_def rn nm same by simp
qed

lemma name_matches_time_rotate:
  assumes "fopen_result env \<noteq> NULL"
  shows "name_matches_time P (logfile_rotate P env s)"
proof -
  have "logfile_getname P s (time_rotate env) =
        logfile_getname P
          ((logfile_rotate P env s)
             \<lparr>Log_directory := Log_directory s, Log_filename_prefix := Log_filename_prefix s\<rparr>)
          (time_rotate env)"
    by (rule logfile_getname_cong) (simp_all add: logfile_rotate_success [OF assms])
  moreover have "rotated_name (trace (logfile_rotate P env s)) =
      Some (logfile_getname P s (time_rotate env))"
    using assms by (simp add: logfile_rotate_success rotated_name_append)
  moreover have "last_rotation_time (logfile_rotate P env s) = time_rotate env"
    by (simp add: logfile_rotate_success [OF assms])
  ultimately show ?thesis
    unfolding name_matches_time_def by auto
qed

lemma name_matches_time_iteration:
  assumes "name_matches_time P s"
  shows "name_matches_time P (state_of (SysLoggerMain_iteration P env s))"
proof (cases "fst (SysLoggerMain_checks P env s) \<and> fopen_result env \<noteq> NULL")
  case True
  then have "name_matches_time P (SysLoggerMain_rotation P env s)"
    by (simp add: rotation_cases name_matches_time_rotate)
  moreover have "no_rotation (SysLoggerMain_rotation P env s)
      (state_of (SysLoggerMain_iteration P env s))"
    unfolding SysLoggerMain_iteration_def
    by (blast intro: no_rotation_trans no_rotation_drain no_rotation_finish)
  ultimately show ?thesis
    by (rule name_matches_time_no_rotation)
next
  case False
  then show ?thesis
    using assms no_rotation_iteration name_matches_time_no_rotation by blast
qed

lemma name_matches_time_loop:
  assumes "name_matches_time P s"
  shows "name_matches_time P (state_of (SysLoggerMain_loop P steps s))"
  using assms
proof (induction steps arbitrary: s)
  case Nil
  then show ?case by simp
next
  case (Cons a steps)
  show ?case
  proof (cases a)
    case Signal_SIGHUP
    have "name_matches_time P (sigHupHandler s)"
      using Cons.prems no_rotation_sigHup by (rule name_matches_time_no_rotation)
    then show ?thesis
      using Cons.IH Signal_SIGHUP by simp
  next
    case (Iteration env)
    have inv: "name_matches_time P (state_of (SysLoggerMain_iteration P env s))"
      using Cons.prems by (rule name_matches_time_iteration)
    show ?thesis
    proof (cases "SysLoggerMain_iteration P env s")
      case (Running s')
      then show ?thesis
        using inv Cons.IH [of s'] Iteration by simp
    next
      case (Exited c s')
      then show ?thesis
        using inv Iteration by simp
    qed
  qed
qed

section \<open>C9: the recorded rotation time is the time in the file name\<close>

text \<open>
  Claim C9. A successful \<open>logfile_rotate\<close> reads the clock, opens the file named by
  \<open>logfile_getname\<close> at that reading, and stores the same reading in
  \<open>last_rotation_time\<close>; a failed one leaves \<open>last_rotation_time\<close> as it was. Hence,
  along every run of the loop, a file in use that a rotation opened was opened under
  the name \<open>logfile_getname\<close> gives for the recorded \<open>last_rotation_time\<close>.
\<close>

theorem last_rotation_time_is_name_timestamp:
  "(fopen_result env \<noteq> NULL \<longrightarrow>
      last_rotation_time (logfile_rotate P env s) = time_rotate env \<and>
      syslogFile (logfile_rotate P env s) = fopen_result env \<and>
      trace (logfile_rotate P env s) = trace s @
        [Call_time,
         Call_fopen (logfile_getname P s (last_rotation_time (logfile_rotate P env s))) ''a''
           (fopen_result env),
         Call_setvbuf (fopen_result env), Call_fclose (syslogFile s)]) \<and>
   (fopen_result env = NULL \<longrightarrow>
      last_rotation_time (logfile_rotate P env s) = last_rotation_time s) \<and>
   (name_matches_time P s \<longrightarrow>
      (\<forall>steps. name_matches_time P (state_of (SysLoggerMain_loop P steps s))))"
proof (intro conjI impI allI)
  assume ok: "fopen_result env \<noteq> NULL"
  show "last_rotation_time (logfile_rotate P env s) = time_rotate env"
    by (simp add: logfile_rotate_success [OF ok])
  then show "trace (logfile_rotate P env s) = trace s @
        [Call_time,
         Call_fopen (logfile_getname P s (last_rotation_time (logfile_rotate P env s))) ''a''
           (fopen_result env),
         Call_setvbuf (fopen_result env), Call_fclose (syslogFile s)]"
    by (simp add: logfile_rotate_success [OF ok])
  show "syslogFile (logfile_rotate P env s) = fopen_result env"
    by (simp add: logfile_rotate_success [OF ok])
next
  assume "fopen_result env = NULL"
  then show "last_rotation_time (logfile_rotate P env s) = last_rotation_time s"
    by (rule logfile_rotate_failure)
next
  fix steps
  assume "name_matches_time P s"
  then show "name_matches_time P (state_of (SysLoggerMain_loop P steps s))"
    by (rule name_matches_time_loop)
qed

theorem last_rotation_time_is_name_timestamp_witness:
  "fopen_result next_day_env \<noteq> NULL \<and>
   name_matches_time example_platform example_state \<and>
   last_rotation_time (logfile_rotate example_platform next_day_env example_state) =
     time_rotate next_day_env \<and>
   name_matches_time example_platform
     (state_of (SysLoggerMain_loop example_platform [Iteration next_day_env] example_state)) \<and>
   rotated_name (trace
     (state_of (SysLoggerMain_loop example_platform [Iteration next_day_env] example_state))) =
     Some ''/usr/local/pgsql/data/pg_log/postgresql-04711_2004-08-07_120000.log'' \<and>
   last_rotation_time
     (state_of (SysLoggerMain_loop example_platform [Iteration next_day_env] example_state)) =
     1091880000"
proof -
  have h: "fopen_result next_day_env \<noteq> NULL"
    by (simp add: next_day_env_def example_defs)
  have i: "name_matches_time example_platform example_state"
    by (simp add: name_matches_time_def example_state_def)
  have e: "rotated_name (trace
     (state_of (SysLoggerMain_loop example_platform [Iteration next_day_env] example_state))) =
     Some ''/usr/local/pgsql/data/pg_log/postgresql-04711_2004-08-07_120000.log''"
    "last_rotation_time
     (state_of (SysLoggerMain_loop example_platform [Iteration next_day_env] example_state)) =
     1091880000"
    by (simp_all add: next_day_env_def example_defs SysLoggerMain_defs logfile_getname_def
        snprintf_def zero_pad_def utoa.simps digit_chars)
  show ?thesis
    using h i e
      last_rotation_time_is_name_timestamp
        [where env = next_day_env and P = example_platform and s = example_state]
    by blast
qed

section \<open>C10: writing never changes the file in use\<close>

lemma rotated_name_append_None:
  "rotated_name (xs @ ys) = None \<longleftrightarrow> rotated_name xs = None \<and> rotated_name ys = None"
  by (simp add: rotated_name_append split: option.splits)

lemma replaced_by_rotation_only_trans:
  assumes "replaced_by_rotation_only s t" and "replaced_by_rotation_only t u"
  shows "replaced_by_rotation_only s u"
proof -
  from assms(1) obtain es where es: "trace t = trace s @ es"
    "rotated_name es = None \<longrightarrow> syslogFile t = syslogFile s"
    unfolding replaced_by_rotation_only_def by (elim exE conjE)
  from assms(2) obtain fs where fs: "trace u = trace t @ fs"
    "rotated_name fs = None \<longrightarrow> syslogFile u = syslogFile t"
    unfolding replaced_by_rotation_only_def by (elim exE conjE)
  have 1: "trace u = trace s @ (es @ fs)"
    by (simp add: es(1) fs(1))
  have 2: "rotated_name (es @ fs) = None \<longrightarrow> syslogFile u = syslogFile s"
  proof
    assume "rotated_name (es @ fs) = None"
    then have "rotated_name es = None" "rotated_name fs = None"
      by (simp_all add: rotated_name_append_None)
    then show "syslogFile u = syslogFile s"
      using es(2) fs(2) by simp
  qed
  show ?thesis
    unfolding replaced_by_rotation_only_def
    by (rule exI [of _ "es @ fs"]) (rule conjI [OF 1 2])
qed

lemma no_rotation_replaced:
  "no_rotation s s' \<Longrightarrow> replaced_by_rotation_only s s'"
  by (auto simp: no_rotation_def replaced_by_rotation_only_def)

lemma replaced_by_rotation_only_rotate:
  "replaced_by_rotation_only s (logfile_rotate P env s)"
proof (cases "fopen_result env = NULL")
  case True
  then show ?thesis
    by (intro no_rotation_replaced no_rotation_failed_rotate)
next
  case False
  then show ?thesis
    by (simp add: replaced_by_rotation_only_def logfile_rotate_success rotated_name_append)
qed

lemma replaced_by_rotation_only_iteration:
  "replaced_by_rotation_only s (state_of (SysLoggerMain_iteration P env s))"
proof -
  let ?c = "snd (SysLoggerMain_checks P env s)"
  let ?r = "SysLoggerMain_rotation P env s"
  let ?d = "snd (SysLoggerMain_drain env ?r)"
  have c: "replaced_by_rotation_only s ?c"
    by (rule no_rotation_replaced [OF no_rotation_checks])
  have "replaced_by_rotation_only ?c ?r"
  proof (cases "fst (SysLoggerMain_checks P env s)")
    case True
    then show ?thesis
      by (simp add: rotation_cases replaced_by_rotation_only_rotate)
  next
    case False
    then show ?thesis
      by (simp add: rotation_cases no_rotation_replaced [OF no_rotation_refl])
  qed
  with c have r: "replaced_by_rotation_only s ?r"
    by (rule replaced_by_rotation_only_trans)
  have "no_rotation ?r ?d"
    by (rule no_rotation_drain)
  moreover have "no_rotation ?d (state_of (SysLoggerMain_finish (SysLoggerMain_drain env ?r)))"
    by (rule no_rotation_finish)
  ultimately have "no_rotation ?r (state_of (SysLoggerMain_finish (SysLoggerMain_drain env ?r)))"
    by (rule no_rotation_trans)
  then have "replaced_by_rotation_only ?r
      (state_of (SysLoggerMain_finish (SysLoggerMain_drain env ?r)))"
    by (rule no_rotation_replaced)
  with r show ?thesis
    unfolding SysLoggerMain_iteration_def by (rule replaced_by_rotation_only_trans)
qed

lemma replaced_by_rotation_only_loop:
  "replaced_by_rotation_only s (state_of (SysLoggerMain_loop P steps s))"
proof (induction steps arbitrary: s)
  case Nil
  show ?case by (simp add: replaced_by_rotation_only_def)
next
  case (Cons a steps)
  show ?case
  proof (cases a)
    case Signal_SIGHUP
    have "replaced_by_rotation_only s (sigHupHandler s)"
      by (intro no_rotation_replaced no_rotation_sigHup)
    moreover have "replaced_by_rotation_only (sigHupHandler s)
        (state_of (SysLoggerMain_loop P steps (sigHupHandler s)))"
      by (rule Cons.IH)
    ultimately have "replaced_by_rotation_only s
        (state_of (SysLoggerMain_loop P steps (sigHupHandler s)))"
      by (rule replaced_by_rotation_only_trans)
    then show ?thesis
      using Signal_SIGHUP by simp
  next
    case (Iteration env)
    have it: "replaced_by_rotation_only s (state_of (SysLoggerMain_iteration P env s))"
      by (rule replaced_by_rotation_only_iteration)
    show ?thesis
    proof (cases "SysLoggerMain_iteration P env s")
      case (Running s')
      then have "replaced_by_rotation_only s s'"
        using it by simp
      moreover have "replaced_by_rotation_only s' (state_of (SysLoggerMain_loop P steps s'))"
        by (rule Cons.IH)
      ultimately have "replaced_by_rotation_only s (state_of (SysLoggerMain_loop P steps s'))"
        by (rule replaced_by_rotation_only_trans)
      then show ?thesis
        using Iteration Running by simp
    next
      case (Exited c s')
      then show ?thesis
        using it Iteration by simp
    qed
  qed
qed

text \<open>
  Claim C10. \<open>write_syslogger_file\<close> changes nothing of the state but the trace: the
  file in use, \<open>last_rotation_time\<close>, \<open>Log_RotationAge\<close> and \<open>Log_RotationSize\<close> are after
  the call what they were before. After an iteration of the loop the file in use is the
  one \<open>logfile_rotate\<close> left if a rotation was requested, and the one before otherwise;
  and along every run of the loop, signals included, the file in use is still the same
  unless the trace shows a successful \<open>fopen\<close> on the way, which only \<open>logfile_rotate\<close>
  does.
\<close>

theorem write_syslogger_file_keeps_rotation_state:
  "(write_syslogger_file env buffer count s)\<lparr>trace := trace s\<rparr> = s \<and>
   syslogFile (write_syslogger_file env buffer count s) = syslogFile s \<and>
   last_rotation_time (write_syslogger_file env buffer count s) = last_rotation_time s \<and>
   Log_RotationAge (write_syslogger_file env buffer count s) = Log_RotationAge s \<and>
   Log_RotationSize (write_syslogger_file env buffer count s) = Log_RotationSize s \<and>
   syslogFile (state_of (SysLoggerMain_iteration P env s)) =
     (if fst (SysLoggerMain_checks P env s)
      then syslogFile (logfile_rotate P env (snd (SysLoggerMain_checks P env s)))
      else syslogFile s) \<and>
   (\<forall>steps es.
      trace (state_of (SysLoggerMain_loop P steps s)) = trace s @ es \<and>
      rotated_name es = None \<longrightarrow>
      syslogFile (state_of (SysLoggerMain_loop P steps s)) = syslogFile s)"
proof -
  have loop: "syslogFile (state_of (SysLoggerMain_loop P steps s)) = syslogFile s"
    if a: "trace (state_of (SysLoggerMain_loop P steps s)) = trace s @ es \<and>
      rotated_name es = None" for steps es
  proof -
    obtain fs where fs: "trace (state_of (SysLoggerMain_loop P steps s)) = trace s @ fs"
      "rotated_name fs = None \<longrightarrow>
         syslogFile (state_of (SysLoggerMain_loop P steps s)) = syslogFile s"
      using replaced_by_rotation_only_loop [of s P steps]
      unfolding replaced_by_rotation_only_def by (elim exE conjE)
    have "trace s @ fs = trace s @ es"
      using a fs(1) by (simp only:)
    then have "fs = es"
      by (simp only: same_append_eq)
    then show ?thesis
      using a fs(2) by (simp only:)
  qed
  have frame: "(write_syslogger_file env buffer count s)\<lparr>trace := trace s\<rparr> = s"
    by simp
  have fields: "syslogFile (write_syslogger_file env buffer count s) = syslogFile s"
    "last_rotation_time (write_syslogger_file env buffer count s) = last_rotation_time s"
    "Log_RotationAge (write_syslogger_file env buffer count s) = Log_RotationAge s"
    "Log_RotationSize (write_syslogger_file env buffer count s) = Log_RotationSize s"
    by (rule write_syslogger_file_fields)+
  have loop_all: "\<forall>steps es.
      trace (state_of (SysLoggerMain_loop P steps s)) = trace s @ es \<and>
      rotated_name es = None \<longrightarrow>
      syslogFile (state_of (SysLoggerMain_loop P steps s)) = syslogFile s"
    by (intro allI impI, rule loop, assumption)
  have it: "syslogFile (state_of (SysLoggerMain_iteration P env s)) =
     (if fst (SysLoggerMain_checks P env s)
      then syslogFile (logfile_rotate P env (snd (SysLoggerMain_checks P env s)))
      else syslogFile s)"
    by (simp add: SysLoggerMain_iteration_def rotation_cases)
  show ?thesis
    by (intro conjI frame fields it loop_all)
qed

theorem write_syslogger_file_keeps_rotation_state_witness:
  "trace (state_of (SysLoggerMain_loop example_platform
      [Iteration (example_env\<lparr>select_rc := 1, select_isset := True, piperead_rc := 3,
         piperead_buf := ''abc''\<rparr>), Signal_SIGHUP] example_state)) =
     trace example_state @
       [Call_time, Call_ftell 1, Call_select, Call_piperead, Call_fwrite 1 ''abc''] \<and>
   rotated_name [Call_time, Call_ftell 1, Call_select, Call_piperead, Call_fwrite 1 ''abc'']
     = None \<and>
   syslogFile (state_of (SysLoggerMain_loop example_platform
      [Iteration (example_env\<lparr>select_rc := 1, select_isset := True, piperead_rc := 3,
         piperead_buf := ''abc''\<rparr>), Signal_SIGHUP] example_state)) =
     syslogFile example_state"
proof -
  let ?steps = "[Iteration (example_env\<lparr>select_rc := 1, select_isset := True,
     piperead_rc := 3, piperead_buf := ''abc''\<rparr>), Signal_SIGHUP]"
  let ?es = "[Call_time, Call_ftell 1, Call_select, Call_piperead, Call_fwrite 1 ''abc'']"
  have t: "trace (state_of (SysLoggerMain_loop example_platform ?steps example_state)) =
           trace example_state @ ?es"
    by (simp add: example_defs SysLoggerMain_defs fwrite_def)
  have r: "rotated_name ?es = None"
    by simp
  show ?thesis
    using t r
      write_syslogger_file_keeps_rotation_state
        [where P = example_platform and s = example_state]
    by blast
qed

section \<open>C4: end of file on the pipe ends the process\<close>

lemma rotation_pipe_eof_seen [simp]:
  "pipe_eof_seen (SysLoggerMain_rotation P env s) = pipe_eof_seen s"
  by (simp add: rotation_cases)

lemma drain_eof:
  assumes "0 <s select_rc env" and "select_isset env" and "piperead_rc env = 0"
  shows "SysLoggerMain_drain env s =
           (False, (emit [Call_select, Call_piperead] s)\<lparr>pipe_eof_seen := True\<rparr>)"
  using assms by (simp add: SysLoggerMain_drain_def Let_def word_sless_alt emit_def)

text \<open>
  Started with the latch clear, an iteration either goes on with the latch clear, or
  exits with code 0 and the latch set, the last events being the read, the diagnostic
  and the exit.
\<close>

lemma finish_drain_outcome:
  assumes "\<not> pipe_eof_seen r"
  shows "case SysLoggerMain_finish (SysLoggerMain_drain env r) of
           Running s' \<Rightarrow> \<not> pipe_eof_seen s'
         | Exited c s' \<Rightarrow> c = 0 \<and> pipe_eof_seen s' \<and>
             trace s' = (trace r @ [Call_select]) @
               [Call_piperead, Ereport LOG ''logger shutting down'' [], Call_proc_exit 0]"
  using assms
  by (simp add: SysLoggerMain_drain_def SysLoggerMain_finish_def proc_exit_def Let_def)

lemma iteration_outcome:
  assumes "\<not> pipe_eof_seen s"
  shows "case SysLoggerMain_iteration P env s of
           Running s' \<Rightarrow> \<not> pipe_eof_seen s'
         | Exited c s' \<Rightarrow> c = 0 \<and> pipe_eof_seen s' \<and>
             (\<exists>tr. trace s' =
                tr @ [Call_piperead, Ereport LOG ''logger shutting down'' [], Call_proc_exit 0])"
proof -
  have "\<not> pipe_eof_seen (SysLoggerMain_rotation P env s)"
    using assms by simp
  then show ?thesis
    unfolding SysLoggerMain_iteration_def
    using finish_drain_outcome [of "SysLoggerMain_rotation P env s" env]
    by (auto split: outcome.splits)
qed

lemma loop_outcome:
  assumes "\<not> pipe_eof_seen s"
  shows "case SysLoggerMain_loop P steps s of
           Running s' \<Rightarrow> \<not> pipe_eof_seen s'
         | Exited c s' \<Rightarrow> c = 0 \<and> pipe_eof_seen s' \<and>
             (\<exists>tr. trace s' =
                tr @ [Call_piperead, Ereport LOG ''logger shutting down'' [], Call_proc_exit 0])"
  using assms
proof (induction steps arbitrary: s)
  case Nil
  then show ?case by simp
next
  case (Cons a steps)
  show ?case
  proof (cases a)
    case Signal_SIGHUP
    have "\<not> pipe_eof_seen (sigHupHandler s)"
      using Cons.prems by (simp add: sigHupHandler_def)
    then show ?thesis
      using Cons.IH [of "sigHupHandler s"] Signal_SIGHUP by simp
  next
    case (Iteration env)
    show ?thesis
    proof (cases "SysLoggerMain_iteration P env s")
      case (Running s')
      then have "\<not> pipe_eof_seen s'"
        using iteration_outcome [OF Cons.prems, of P env] by simp
      then show ?thesis
        using Cons.IH [of s'] Iteration Running by simp
    next
      case (Exited c s')
      then show ?thesis
        using iteration_outcome [OF Cons.prems, of P env] Iteration by simp
    qed
  qed
qed

text \<open>
  Claim C4. When \<open>select\<close> reports the pipe readable and the read returns 0 bytes, the
  loop sets \<open>pipe_eof_seen\<close>, and the same iteration reports "logger shutting down" and
  calls \<open>proc_exit(0)\<close>: after the read of 0 bytes the trace has the diagnostic and the
  exit and nothing else, and no later iteration runs. The latch is never found set at
  the top of an iteration: from a state with the latch clear, a run of the loop either
  goes on with the latch clear or has exited with code 0, the last events being the read
  of 0 bytes, the diagnostic and the exit.
\<close>

theorem pipe_eof_exits_within_iteration:
  "(0 <s select_rc env \<and> select_isset env \<and> piperead_rc env = 0 \<longrightarrow>
      SysLoggerMain_drain env s =
        (False, (emit [Call_select, Call_piperead] s)\<lparr>pipe_eof_seen := True\<rparr>) \<and>
      SysLoggerMain_iteration P env s =
        Exited 0
          ((SysLoggerMain_rotation P env s)
             \<lparr>pipe_eof_seen := True,
              trace := trace (SysLoggerMain_rotation P env s) @
                [Call_select, Call_piperead,
                 Ereport LOG ''logger shutting down'' [], Call_proc_exit 0]\<rparr>) \<and>
      (\<forall>steps. SysLoggerMain_loop P (Iteration env # steps) s =
                SysLoggerMain_iteration P env s)) \<and>
   (\<not> pipe_eof_seen s \<longrightarrow>
      (\<forall>steps.
         case SysLoggerMain_loop P steps s of
           Running s' \<Rightarrow> \<not> pipe_eof_seen s'
         | Exited c s' \<Rightarrow> c = 0 \<and> pipe_eof_seen s' \<and>
             (\<exists>tr. trace s' =
                tr @ [Call_piperead, Ereport LOG ''logger shutting down'' [],
                      Call_proc_exit 0])))"
proof (intro conjI impI allI)
  assume a: "0 <s select_rc env \<and> select_isset env \<and> piperead_rc env = 0"
  then show d: "SysLoggerMain_drain env s =
        (False, (emit [Call_select, Call_piperead] s)\<lparr>pipe_eof_seen := True\<rparr>)"
    by (intro drain_eof) simp_all
  from a have d': "SysLoggerMain_drain env (SysLoggerMain_rotation P env s) =
        (False, (emit [Call_select, Call_piperead] (SysLoggerMain_rotation P env s))
                  \<lparr>pipe_eof_seen := True\<rparr>)"
    by (intro drain_eof) simp_all
  show it: "SysLoggerMain_iteration P env s =
        Exited 0
          ((SysLoggerMain_rotation P env s)
             \<lparr>pipe_eof_seen := True,
              trace := trace (SysLoggerMain_rotation P env s) @
                [Call_select, Call_piperead,
                 Ereport LOG ''logger shutting down'' [], Call_proc_exit 0]\<rparr>)"
    unfolding SysLoggerMain_iteration_def d'
    by (simp add: SysLoggerMain_finish_def proc_exit_def emit_def ereport_def)
  fix steps
  show "SysLoggerMain_loop P (Iteration env # steps) s = SysLoggerMain_iteration P env s"
    unfolding it by (simp add: it)
next
  fix steps
  assume "\<not> pipe_eof_seen s"
  then show "case SysLoggerMain_loop P steps s of
           Running s' \<Rightarrow> \<not> pipe_eof_seen s'
         | Exited c s' \<Rightarrow> c = 0 \<and> pipe_eof_seen s' \<and>
             (\<exists>tr. trace s' =
                tr @ [Call_piperead, Ereport LOG ''logger shutting down'' [],
                      Call_proc_exit 0])"
    by (rule loop_outcome)
qed

theorem pipe_eof_exits_within_iteration_witness:
  "0 <s select_rc (example_env\<lparr>select_rc := 1, select_isset := True, piperead_rc := 0\<rparr>) \<and>
   select_isset (example_env\<lparr>select_rc := 1, select_isset := True, piperead_rc := 0\<rparr>) \<and>
   piperead_rc (example_env\<lparr>select_rc := 1, select_isset := True, piperead_rc := 0\<rparr>) = 0 \<and>
   \<not> pipe_eof_seen example_state \<and>
   SysLoggerMain_loop example_platform
     [Iteration (example_env\<lparr>select_rc := 1, select_isset := True, piperead_rc := 0\<rparr>),
      Iteration example_env] example_state =
     Exited 0
       (example_state
          \<lparr>pipe_eof_seen := True,
           trace := [Call_time, Call_ftell 1, Call_select, Call_piperead,
                     Ereport LOG ''logger shutting down'' [], Call_proc_exit 0]\<rparr>) \<and>
   (case SysLoggerMain_loop example_platform
      [Iteration example_env, Signal_SIGHUP,
       Iteration (example_env\<lparr>select_rc := 1, select_isset := True, piperead_rc := 0\<rparr>)]
      example_state of
      Running s' \<Rightarrow> \<not> pipe_eof_seen s'
    | Exited c s' \<Rightarrow> c = 0 \<and> pipe_eof_seen s' \<and>
        (\<exists>tr. trace s' =
           tr @ [Call_piperead, Ereport LOG ''logger shutting down'' [], Call_proc_exit 0]))"
proof -
  let ?E = "example_env\<lparr>select_rc := 1, select_isset := True, piperead_rc := 0\<rparr>"
  note T = pipe_eof_exits_within_iteration
    [where env = ?E and s = example_state and P = example_platform]
  have h: "0 <s select_rc ?E \<and> select_isset ?E \<and> piperead_rc ?E = 0"
    by (simp add: example_defs word_sless_alt)
  have g: "\<not> pipe_eof_seen example_state"
    by (simp add: example_defs)
  have r: "SysLoggerMain_rotation example_platform ?E example_state =
           example_state\<lparr>trace := [Call_time, Call_ftell 1]\<rparr>"
    by (simp add: example_defs SysLoggerMain_defs)
  have c1: "0 <s select_rc ?E \<and> select_isset ?E \<and> piperead_rc ?E = 0 \<longrightarrow>
      SysLoggerMain_drain ?E example_state =
        (False, (emit [Call_select, Call_piperead] example_state)\<lparr>pipe_eof_seen := True\<rparr>) \<and>
      SysLoggerMain_iteration example_platform ?E example_state =
        Exited 0
          ((SysLoggerMain_rotation example_platform ?E example_state)
             \<lparr>pipe_eof_seen := True,
              trace := trace (SysLoggerMain_rotation example_platform ?E example_state) @
                [Call_select, Call_piperead,
                 Ereport LOG ''logger shutting down'' [], Call_proc_exit 0]\<rparr>) \<and>
      (\<forall>steps. SysLoggerMain_loop example_platform (Iteration ?E # steps) example_state =
                SysLoggerMain_iteration example_platform ?E example_state)"
    using T by (rule conjunct1)
  have c2: "\<not> pipe_eof_seen example_state \<longrightarrow>
      (\<forall>steps.
         case SysLoggerMain_loop example_platform steps example_state of
           Running s' \<Rightarrow> \<not> pipe_eof_seen s'
         | Exited c s' \<Rightarrow> c = 0 \<and> pipe_eof_seen s' \<and>
             (\<exists>tr. trace s' =
                tr @ [Call_piperead, Ereport LOG ''logger shutting down'' [],
                      Call_proc_exit 0]))"
    using T by (rule conjunct2)
  note B = mp [OF c1 h]
  note it = conjunct1 [OF conjunct2 [OF B]]
  note lp = spec [OF conjunct2 [OF conjunct2 [OF B]], of "[Iteration example_env]"]
  have 1: "SysLoggerMain_loop example_platform [Iteration ?E, Iteration example_env]
        example_state =
     Exited 0
       (example_state
          \<lparr>pipe_eof_seen := True,
           trace := [Call_time, Call_ftell 1, Call_select, Call_piperead,
                     Ereport LOG ''logger shutting down'' [], Call_proc_exit 0]\<rparr>)"
    unfolding lp it r by (simp add: example_state_def)
  note 2 = spec [OF mp [OF c2 g], of "[Iteration example_env, Signal_SIGHUP, Iteration ?E]"]
  show ?thesis
    by (intro conjI conjunct1 [OF h] conjunct1 [OF conjunct2 [OF h]]
        conjunct2 [OF conjunct2 [OF h]] g 1 2)
qed

section \<open>C7: an interrupted wait or read is a timeout\<close>

lemma reload_select_rc:
  "SysLoggerMain_reload P (env\<lparr>select_rc := rc\<rparr>) s = SysLoggerMain_reload P env s"
  by (simp add: SysLoggerMain_reload_def ProcessConfigFile_def Let_def)

lemma age_check_select_rc:
  "SysLoggerMain_age_check (env\<lparr>select_rc := rc\<rparr>) rs = SysLoggerMain_age_check env rs"
  by (cases rs) (simp add: SysLoggerMain_age_check_def Let_def)

lemma size_check_select_rc:
  "SysLoggerMain_size_check (env\<lparr>select_rc := rc\<rparr>) rs = SysLoggerMain_size_check env rs"
  by (cases rs) (simp add: SysLoggerMain_size_check_def Let_def)

lemma logfile_rotate_select_rc:
  "logfile_rotate P (env\<lparr>select_rc := rc\<rparr>) s = logfile_rotate P env s"
  by (simp add: logfile_rotate_def Let_def)

lemma rotation_select_rc:
  "SysLoggerMain_rotation P (env\<lparr>select_rc := rc\<rparr>) s = SysLoggerMain_rotation P env s"
  by (simp add: SysLoggerMain_rotation_def SysLoggerMain_checks_def reload_select_rc
      age_check_select_rc size_check_select_rc logfile_rotate_select_rc Let_def)

lemma drain_timeout:
  "SysLoggerMain_drain (env\<lparr>select_rc := 0\<rparr>) s = (False, emit [Call_select] s)"
  by (simp add: SysLoggerMain_drain_def Let_def word_sless_alt)

lemma drain_select_error:
  assumes "select_rc env <s 0"
  shows "SysLoggerMain_drain env s =
          (False,
           if select_errno env = EINTR then emit [Call_select] s
           else ereport LOG ''select() failed in logger process: %m'' []
                  (emit [Call_select] s))"
  using assms by (simp add: SysLoggerMain_drain_def Let_def)

lemma drain_read_error:
  assumes "0 <s select_rc env" and "select_isset env" and "piperead_rc env <s 0"
  shows "SysLoggerMain_drain env s =
          (False,
           if piperead_errno env = EINTR then emit [Call_select, Call_piperead] s
           else ereport LOG ''could not read from logger pipe: %m'' []
                  (emit [Call_select, Call_piperead] s))"
proof -
  have "\<not> select_rc env <s 0"
    using assms(1) by (simp add: word_sless_alt)
  then show ?thesis
    using assms by (simp add: SysLoggerMain_drain_def Let_def emit_def)
qed

text \<open>
  Claim C7. A wait that times out does nothing but the \<open>select\<close>. A \<open>select\<close> that fails
  with \<open>EINTR\<close> does the same, and the whole iteration is the iteration of a timeout; a
  read that fails with \<open>EINTR\<close> adds the read to the trace and nothing else. With any
  other error the one further event is the diagnostic (of the wait, or of the read). In
  all four cases nothing is written, \<open>pipe_eof_seen\<close> keeps its value, and the iteration
  does not take the \<open>continue\<close>: with the latch clear, the iteration of a timeout and the
  iteration of an interrupted read both leave the process running, in the state in which
  the rotation part left it, but for the trace.
\<close>

theorem drain_error_is_timeout:
  "SysLoggerMain_drain (env\<lparr>select_rc := 0\<rparr>) s = (False, emit [Call_select] s) \<and>
   (select_rc env <s 0 \<and> select_errno env = EINTR \<longrightarrow>
      SysLoggerMain_drain env s = SysLoggerMain_drain (env\<lparr>select_rc := 0\<rparr>) s \<and>
      SysLoggerMain_iteration P env s = SysLoggerMain_iteration P (env\<lparr>select_rc := 0\<rparr>) s) \<and>
   (0 <s select_rc env \<and> select_isset env \<and> piperead_rc env <s 0 \<and>
    piperead_errno env = EINTR \<longrightarrow>
      SysLoggerMain_drain env s = (False, emit [Call_select, Call_piperead] s)) \<and>
   (select_rc env <s 0 \<and> select_errno env \<noteq> EINTR \<longrightarrow>
      SysLoggerMain_drain env s =
        (False, ereport LOG ''select() failed in logger process: %m'' []
                  (emit [Call_select] s))) \<and>
   (0 <s select_rc env \<and> select_isset env \<and> piperead_rc env <s 0 \<and>
    piperead_errno env \<noteq> EINTR \<longrightarrow>
      SysLoggerMain_drain env s =
        (False, ereport LOG ''could not read from logger pipe: %m'' []
                  (emit [Call_select, Call_piperead] s))) \<and>
   (select_rc env <s 0 \<or> 0 <s select_rc env \<and> select_isset env \<and> piperead_rc env <s 0 \<longrightarrow>
      \<not> fst (SysLoggerMain_drain env s) \<and>
      pipe_eof_seen (snd (SysLoggerMain_drain env s)) = pipe_eof_seen s \<and>
      (\<exists>es. trace (snd (SysLoggerMain_drain env s)) = trace s @ es \<and>
            (\<forall>f b. Call_fwrite f b \<notin> set es))) \<and>
   (\<not> pipe_eof_seen s \<longrightarrow>
      SysLoggerMain_iteration P (env\<lparr>select_rc := 0\<rparr>) s =
        Running (emit [Call_select] (SysLoggerMain_rotation P env s))) \<and>
   (0 <s select_rc env \<and> select_isset env \<and> piperead_rc env <s 0 \<and>
    piperead_errno env = EINTR \<and> \<not> pipe_eof_seen s \<longrightarrow>
      SysLoggerMain_iteration P env s =
        Running (emit [Call_select, Call_piperead] (SysLoggerMain_rotation P env s)))"
proof (intro conjI impI)
  show "SysLoggerMain_drain (env\<lparr>select_rc := 0\<rparr>) s = (False, emit [Call_select] s)"
    by (rule drain_timeout)
next
  assume a: "select_rc env <s 0 \<and> select_errno env = EINTR"
  then show d: "SysLoggerMain_drain env s = SysLoggerMain_drain (env\<lparr>select_rc := 0\<rparr>) s"
    by (simp add: drain_timeout drain_select_error)
  from a have "SysLoggerMain_drain env (SysLoggerMain_rotation P env s) =
      SysLoggerMain_drain (env\<lparr>select_rc := 0\<rparr>) (SysLoggerMain_rotation P env s)"
    by (simp add: drain_timeout drain_select_error)
  then show "SysLoggerMain_iteration P env s =
      SysLoggerMain_iteration P (env\<lparr>select_rc := 0\<rparr>) s"
    by (simp only: SysLoggerMain_iteration_def rotation_select_rc)
next
  assume "0 <s select_rc env \<and> select_isset env \<and> piperead_rc env <s 0 \<and>
    piperead_errno env = EINTR"
  then show "SysLoggerMain_drain env s = (False, emit [Call_select, Call_piperead] s)"
    by (simp add: drain_read_error)
next
  assume "select_rc env <s 0 \<and> select_errno env \<noteq> EINTR"
  then show "SysLoggerMain_drain env s =
        (False, ereport LOG ''select() failed in logger process: %m'' []
                  (emit [Call_select] s))"
    by (simp add: drain_select_error)
next
  assume "0 <s select_rc env \<and> select_isset env \<and> piperead_rc env <s 0 \<and>
    piperead_errno env \<noteq> EINTR"
  then show "SysLoggerMain_drain env s =
        (False, ereport LOG ''could not read from logger pipe: %m'' []
                  (emit [Call_select, Call_piperead] s))"
    by (simp add: drain_read_error)
next
  assume a: "select_rc env <s 0 \<or>
    0 <s select_rc env \<and> select_isset env \<and> piperead_rc env <s 0"
  then obtain es where es: "SysLoggerMain_drain env s = (False, emit es s)"
    "\<forall>f b. Call_fwrite f b \<notin> set es"
    by (cases "select_errno env = EINTR"; cases "piperead_errno env = EINTR")
      (auto simp: drain_select_error drain_read_error ereport_def emit_def)
  show "\<not> fst (SysLoggerMain_drain env s)"
    by (simp add: es(1))
  show "pipe_eof_seen (snd (SysLoggerMain_drain env s)) = pipe_eof_seen s"
    by (simp add: es(1))
  show "\<exists>es. trace (snd (SysLoggerMain_drain env s)) = trace s @ es \<and>
            (\<forall>f b. Call_fwrite f b \<notin> set es)"
    using es(2) by (intro exI [of _ es]) (simp add: es(1))
next
  assume "\<not> pipe_eof_seen s"
  then show "SysLoggerMain_iteration P (env\<lparr>select_rc := 0\<rparr>) s =
        Running (emit [Call_select] (SysLoggerMain_rotation P env s))"
    by (simp add: SysLoggerMain_iteration_def rotation_select_rc drain_timeout
        SysLoggerMain_finish_def)
next
  assume a: "0 <s select_rc env \<and> select_isset env \<and> piperead_rc env <s 0 \<and>
    piperead_errno env = EINTR \<and> \<not> pipe_eof_seen s"
  then have "SysLoggerMain_drain env (SysLoggerMain_rotation P env s) =
      (False, emit [Call_select, Call_piperead] (SysLoggerMain_rotation P env s))"
    by (simp add: drain_read_error)
  then show "SysLoggerMain_iteration P env s =
        Running (emit [Call_select, Call_piperead] (SysLoggerMain_rotation P env s))"
    using a by (simp add: SysLoggerMain_iteration_def SysLoggerMain_finish_def)
qed

theorem drain_error_is_timeout_witness:
  "select_rc (example_env\<lparr>select_rc := - 1, select_errno := EINTR\<rparr>) <s 0 \<and>
   SysLoggerMain_iteration example_platform
     (example_env\<lparr>select_rc := - 1, select_errno := EINTR\<rparr>) example_state =
   SysLoggerMain_iteration example_platform
     (example_env\<lparr>select_rc := - 1, select_errno := EINTR, select_rc := 0\<rparr>) example_state \<and>
   \<not> pipe_eof_seen example_state \<and>
   SysLoggerMain_iteration example_platform
     (example_env\<lparr>select_rc := 1, select_isset := True, piperead_rc := - 1,
        piperead_errno := EINTR\<rparr>) example_state =
     Running (emit [Call_select, Call_piperead]
       (SysLoggerMain_rotation example_platform
         (example_env\<lparr>select_rc := 1, select_isset := True, piperead_rc := - 1,
            piperead_errno := EINTR\<rparr>) example_state)) \<and>
   SysLoggerMain_drain (example_env\<lparr>select_rc := - 1, select_errno := 9\<rparr>) example_state =
     (False, ereport LOG ''select() failed in logger process: %m'' []
               (emit [Call_select] example_state)) \<and>
   SysLoggerMain_drain
     (example_env\<lparr>select_rc := 1, select_isset := True, piperead_rc := - 1,
        piperead_errno := 5\<rparr>) example_state =
     (False, ereport LOG ''could not read from logger pipe: %m'' []
               (emit [Call_select, Call_piperead] example_state))"
proof -
  let ?E1 = "example_env\<lparr>select_rc := - 1, select_errno := EINTR\<rparr>"
  let ?E2 = "example_env\<lparr>select_rc := 1, select_isset := True, piperead_rc := - 1,
        piperead_errno := EINTR\<rparr>"
  let ?E3 = "example_env\<lparr>select_rc := - 1, select_errno := 9\<rparr>"
  let ?E4 = "example_env\<lparr>select_rc := 1, select_isset := True, piperead_rc := - 1,
        piperead_errno := 5\<rparr>"
  have h1: "select_rc ?E1 <s 0 \<and> select_errno ?E1 = EINTR"
    by (simp add: example_defs word_sless_alt)
  have h2: "0 <s select_rc ?E2 \<and> select_isset ?E2 \<and> piperead_rc ?E2 <s 0 \<and>
    piperead_errno ?E2 = EINTR \<and> \<not> pipe_eof_seen example_state"
    by (simp add: example_defs word_sless_alt)
  have h3: "select_rc ?E3 <s 0 \<and> select_errno ?E3 \<noteq> EINTR"
    by (simp add: example_defs word_sless_alt)
  have h4: "0 <s select_rc ?E4 \<and> select_isset ?E4 \<and> piperead_rc ?E4 <s 0 \<and>
    piperead_errno ?E4 \<noteq> EINTR"
    by (simp add: example_defs word_sless_alt)
  note T1 = drain_error_is_timeout [where env = ?E1 and s = example_state and P = example_platform]
  note T2 = drain_error_is_timeout [where env = ?E2 and s = example_state and P = example_platform]
  note T3 = drain_error_is_timeout [where env = ?E3 and s = example_state and P = example_platform]
  note T4 = drain_error_is_timeout [where env = ?E4 and s = example_state and P = example_platform]
  have 1: "SysLoggerMain_iteration example_platform ?E1 example_state =
      SysLoggerMain_iteration example_platform (?E1\<lparr>select_rc := 0\<rparr>) example_state"
    using T1 h1 by blast
  have 2: "SysLoggerMain_iteration example_platform ?E2 example_state =
     Running (emit [Call_select, Call_piperead]
       (SysLoggerMain_rotation example_platform ?E2 example_state))"
    using T2 h2 by blast
  have 3: "SysLoggerMain_drain ?E3 example_state =
     (False, ereport LOG ''select() failed in logger process: %m'' []
               (emit [Call_select] example_state))"
    using T3 h3 by blast
  have 4: "SysLoggerMain_drain ?E4 example_state =
     (False, ereport LOG ''could not read from logger pipe: %m'' []
               (emit [Call_select, Call_piperead] example_state))"
    using T4 h4 by blast
  show ?thesis
    using h1 h2 1 2 3 4 by blast
qed

section \<open>C8: a short write is reported once and not retried\<close>

subsection \<open>Conversions between int and size\_t\<close>

lemma sint_nonneg_uint:
  assumes "0 \<le> sint (c :: 32 word)"
  shows "uint c = sint c"
proof (cases "uint c < 2 ^ 31")
  case True
  have "0 \<le> uint c" by simp
  moreover have "- (2 ^ 31) \<le> (0::int)" by simp
  ultimately have "- (2 ^ 31) \<le> uint c" by (rule order_trans [rotated])
  then have "signed_take_bit 31 (uint c) = uint c"
    using True by (rule signed_take_bit_int_eq_self)
  then show ?thesis
    by (simp add: sint_uint)
next
  case False
  then have "signed_take_bit 31 (uint c) \<le> uint c - 2 ^ Suc 31"
    by (intro signed_take_bit_int_less_eq) simp
  then have "sint c \<le> uint c - 2 ^ 32"
    by (simp add: sint_uint)
  moreover have "uint c < 2 ^ 32"
    using uint_lt2p [of c] by simp
  ultimately show ?thesis using assms by simp
qed

lemma uint_scast_nonneg:
  assumes "0 \<le> sint (c :: 32 word)"
  shows "uint (scast c :: 64 word) = sint c"
proof -
  have "sint c < 2 ^ 31" using sint_lt [of c] by simp
  then have "sint c < 2 ^ 64" by simp
  then have "take_bit 64 (sint c) = sint c"
    using assms by (intro take_bit_int_eq_self)
  moreover have "uint (scast c :: 64 word) = take_bit 64 (sint c)"
    unfolding scast_eq
    by (simp only: uint_word_of_int_eq len_bit0 len_num1 mult_2 one_add_one
        numeral_plus_numeral add_num_simps)
  ultimately show ?thesis by simp
qed

lemma unat_scast_nonneg:
  assumes "0 \<le>s (c :: 32 word)"
  shows "unat (scast c :: 64 word) = unat c"
proof -
  have "0 \<le> sint c" using assms by (simp add: word_sle_eq)
  then have "uint (scast c :: 64 word) = uint c"
    by (simp add: sint_nonneg_uint uint_scast_nonneg)
  then show ?thesis by (simp add: unat_eq_nat_uint del: nat_uint_eq)
qed

lemma of_nat_eq_small:
  assumes "m \<le> unat (c :: 32 word)"
  shows "(of_nat m = c) \<longleftrightarrow> (m = unat c)"
proof
  assume "of_nat m = c"
  then have "unat (of_nat m :: 32 word) = unat c" by simp
  moreover have "unat c < 2 ^ 32" using unsigned_less [of c, where 'a = nat] by simp
  ultimately show "m = unat c" using assms by (simp add: unat_of_nat)
next
  assume "m = unat c" then show "of_nat m = c" by simp
qed

lemma ucast_of_nat_down:
  "(ucast (of_nat n :: 64 word) :: 32 word) = of_nat n"
  by transfer (simp add: take_bit_of_nat min_def)

lemma unat_fwrite:
  "unat (fwrite env nmemb) = min (fwrite_room env) (unat nmemb)"
proof -
  have "unat nmemb < 2 ^ 64"
    using unsigned_less [of nmemb, where 'a = nat] by simp
  then have "min (fwrite_room env) (unat nmemb) < 2 ^ 64"
    by simp
  then show ?thesis
    by (simp add: fwrite_def unat_of_nat)
qed

lemma write_syslogger_file_cases:
  assumes "0 \<le>s count"
  shows "write_syslogger_file env buffer count s =
     (if unat (fwrite env (scast count)) < unat count
      then ereport LOG ''could not write to logfile: %m'' []
             (emit [Call_fwrite (syslogFile s) (take (unat count) buffer)] s)
      else emit [Call_fwrite (syslogFile s) (take (unat count) buffer)] s)"
proof -
  let ?m = "min (fwrite_room env) (unat count)"
  have n: "unat (scast count :: size_t) = unat count"
    using assms by (rule unat_scast_nonneg)
  have rc: "(ucast (fwrite env (scast count)) :: c_int) = of_nat ?m"
    by (simp add: fwrite_def n ucast_of_nat_down)
  have e: "(of_nat ?m = count) \<longleftrightarrow> (?m = unat count)"
    by (rule of_nat_eq_small) simp
  have le: "?m \<le> unat count"
    by simp
  have w: "unat (fwrite env (scast count)) = ?m"
    by (simp only: unat_fwrite n)
  have "(ucast (fwrite env (scast count)) \<noteq> count) \<longleftrightarrow> (?m \<noteq> unat count)"
    unfolding rc using e by (simp only:)
  also have "\<dots> \<longleftrightarrow> ?m < unat count"
    using le by linarith
  finally have "(ucast (fwrite env (scast count)) \<noteq> count) \<longleftrightarrow>
      unat (fwrite env (scast count)) < unat count"
    unfolding w .
  then show ?thesis
    by (simp add: write_syslogger_file_def Let_def n)
qed

lemma drain_data:
  assumes "0 <s select_rc env" and "select_isset env" and "0 <s piperead_rc env"
  shows "SysLoggerMain_drain env s =
     (True, write_syslogger_file env (piperead_buf env) (piperead_rc env)
              (emit [Call_select, Call_piperead] s))"
proof -
  have "\<not> select_rc env <s 0" "\<not> piperead_rc env <s 0"
    using assms by (simp_all add: word_sless_alt)
  then show ?thesis
    using assms by (simp add: SysLoggerMain_drain_def Let_def emit_def)
qed

text \<open>
  Claim C8. For a call with a count that is not negative, \<open>fwrite\<close> is called once, with
  the current file and the first \<open>count\<close> bytes of the buffer. If it wrote fewer bytes
  than \<open>count\<close>, the one further event is the diagnostic "could not write to logfile";
  if it wrote them all, there is no further event. Nothing else of the state changes,
  so nothing is kept for later; and the iteration of the loop that read the bytes ends
  at the \<open>continue\<close> with the process running, whatever the write did.
\<close>

theorem write_syslogger_file_reports_short_write:
  assumes "0 \<le>s count"
  shows "unat (fwrite env (scast count)) \<le> unat count \<and>
         (unat (fwrite env (scast count)) < unat count \<longrightarrow>
            write_syslogger_file env buffer count s =
              ereport LOG ''could not write to logfile: %m'' []
                (emit [Call_fwrite (syslogFile s) (take (unat count) buffer)] s)) \<and>
         (unat (fwrite env (scast count)) = unat count \<longrightarrow>
            write_syslogger_file env buffer count s =
              emit [Call_fwrite (syslogFile s) (take (unat count) buffer)] s) \<and>
         (write_syslogger_file env buffer count s)\<lparr>trace := trace s\<rparr> = s \<and>
         (0 <s select_rc env \<and> select_isset env \<and> 0 <s piperead_rc env \<longrightarrow>
            SysLoggerMain_iteration P env s =
              Running (write_syslogger_file env (piperead_buf env) (piperead_rc env)
                         (emit [Call_select, Call_piperead] (SysLoggerMain_rotation P env s))))"
proof (intro conjI impI)
  have n: "unat (scast count :: size_t) = unat count"
    using assms by (rule unat_scast_nonneg)
  show "unat (fwrite env (scast count)) \<le> unat count"
    by (simp add: unat_fwrite n)
  show "write_syslogger_file env buffer count s =
      ereport LOG ''could not write to logfile: %m'' []
        (emit [Call_fwrite (syslogFile s) (take (unat count) buffer)] s)"
    if "unat (fwrite env (scast count)) < unat count"
    using that by (simp add: write_syslogger_file_cases [OF assms])
  show "write_syslogger_file env buffer count s =
      emit [Call_fwrite (syslogFile s) (take (unat count) buffer)] s"
    if "unat (fwrite env (scast count)) = unat count"
    using that by (simp add: write_syslogger_file_cases [OF assms])
  show "(write_syslogger_file env buffer count s)\<lparr>trace := trace s\<rparr> = s"
    by simp
  show "SysLoggerMain_iteration P env s =
      Running (write_syslogger_file env (piperead_buf env) (piperead_rc env)
                 (emit [Call_select, Call_piperead] (SysLoggerMain_rotation P env s)))"
    if "0 <s select_rc env \<and> select_isset env \<and> 0 <s piperead_rc env"
    using that by (simp add: SysLoggerMain_iteration_def drain_data SysLoggerMain_finish_def)
qed

theorem write_syslogger_file_reports_short_write_witness:
  "0 \<le>s (5 :: c_int) \<and>
   unat (fwrite (example_env\<lparr>fwrite_room := 3\<rparr>) (scast (5 :: c_int))) < unat (5 :: c_int) \<and>
   write_syslogger_file (example_env\<lparr>fwrite_room := 3\<rparr>) ''hello world'' 5 example_state =
     ereport LOG ''could not write to logfile: %m'' []
       (emit [Call_fwrite 1 ''hello''] example_state) \<and>
   unat (fwrite example_env (scast (5 :: c_int))) = unat (5 :: c_int) \<and>
   write_syslogger_file example_env ''hello world'' 5 example_state =
     emit [Call_fwrite 1 ''hello''] example_state"
proof -
  have h: "0 \<le>s (5 :: c_int)"
    by (simp add: word_sle_eq)
  have n: "unat (scast (5 :: c_int) :: size_t) = unat (5 :: c_int)"
    using h by (rule unat_scast_nonneg)
  have short: "unat (fwrite (example_env\<lparr>fwrite_room := 3\<rparr>) (scast (5 :: c_int)))
      < unat (5 :: c_int)"
    unfolding unat_fwrite n by (simp add: example_env_def)
  have full: "unat (fwrite example_env (scast (5 :: c_int))) = unat (5 :: c_int)"
    unfolding unat_fwrite n by (simp add: example_env_def)
  note T1 = write_syslogger_file_reports_short_write
    [OF h, where env = "example_env\<lparr>fwrite_room := 3\<rparr>" and buffer = "''hello world''"
       and s = example_state and P = example_platform]
  note T2 = write_syslogger_file_reports_short_write
    [OF h, where env = example_env and buffer = "''hello world''"
       and s = example_state and P = example_platform]
  have 1: "write_syslogger_file (example_env\<lparr>fwrite_room := 3\<rparr>) ''hello world'' 5
      example_state =
     ereport LOG ''could not write to logfile: %m'' []
       (emit [Call_fwrite (syslogFile example_state) (take (unat (5 :: c_int)) ''hello world'')]
          example_state)"
    using T1 short by blast
  have 2: "write_syslogger_file example_env ''hello world'' 5 example_state =
     emit [Call_fwrite (syslogFile example_state) (take (unat (5 :: c_int)) ''hello world'')]
       example_state"
    using T2 full by blast
  have v: "syslogFile example_state = 1" "take (unat (5 :: c_int)) ''hello world'' = ''hello''"
    by (simp_all add: example_state_def)
  show ?thesis
    using h short full 1 2 unfolding v by blast
qed

section \<open>C2: when a rotation is requested\<close>

subsection \<open>The arithmetic of the two thresholds\<close>

lemma sint_scast_mul_1024:
  "sint ((scast (x :: c_int) :: c_long) * 1024) = sint x * 1024"
proof -
  have up: "sint (scast x :: c_long) = sint x"
    by (rule sint_up_scast) (simp add: is_up)
  have b: "- (2 ^ 31) \<le> sint x" "sint x < 2 ^ 31"
    using sint_ge [of x] sint_lt [of x] by simp_all
  have "sint ((scast x :: c_long) * 1024) = signed_take_bit 63 (sint x * 1024)"
    by (simp add: sint_word_ariths up)
  also have "\<dots> = sint x * 1024"
    by (rule signed_take_bit_int_eq_self) (use b in simp_all)
  finally show ?thesis .
qed

lemma sint_mul_60:
  assumes "0 \<le> sint (x :: c_int)" and "sint x \<le> 35791394"
  shows "sint (x * 60) = sint x * 60"
proof -
  have "sint (x * 60) = signed_take_bit 31 (sint x * 60)"
    by (simp add: sint_word_ariths)
  also have "\<dots> = sint x * 60"
    by (rule signed_take_bit_int_eq_self) (use assms in simp_all)
  finally show ?thesis .
qed

lemma sint_ucast_down:
  "sint (ucast (w :: c_long) :: c_int) = signed_take_bit 31 (sint w)"
  by transfer (simp add: signed_take_bit_take_bit min_def)

lemma sint_elapsed:
  assumes "- (2 ^ 31) \<le> sint a - sint b" and "sint a - sint b < 2 ^ 31"
  shows "sint (ucast (a - b :: c_long) :: c_int) = sint a - sint b"
proof -
  have 1: "sint (a - b) = sint a - sint b"
  proof -
    have "sint (a - b) = signed_take_bit 63 (sint a - sint b)"
      by (simp add: sint_word_ariths)
    also have "\<dots> = sint a - sint b"
      by (rule signed_take_bit_int_eq_self) (use assms in simp_all)
    finally show ?thesis .
  qed
  have "sint (ucast (a - b) :: c_int) = signed_take_bit 31 (sint (a - b))"
    by (rule sint_ucast_down)
  also have "\<dots> = sint a - sint b"
    unfolding 1 by (rule signed_take_bit_int_eq_self) (use assms in simp_all)
  finally show ?thesis .
qed

subsection \<open>The three checks, one by one\<close>

lemma reload_trace:
  "trace (snd (SysLoggerMain_reload P env s)) =
     trace s @ (if got_SIGHUP s then [Call_ProcessConfigFile] else [])"
  by (simp add: SysLoggerMain_reload_def ProcessConfigFile_def Let_def)

lemma age_check_fst:
  "fst (SysLoggerMain_age_check env rs) \<longleftrightarrow>
     fst rs \<or>
     last_rotation_time (snd rs) \<noteq> 0 \<and> 0 <s Log_RotationAge (snd rs) \<and>
     Log_RotationAge (snd rs) * 60
       \<le>s (ucast (time_age_check env - last_rotation_time (snd rs)) :: c_int)"
  by (cases rs) (simp add: SysLoggerMain_age_check_def Let_def)

lemma age_check_trace:
  "trace (snd (SysLoggerMain_age_check env rs)) =
     trace (snd rs) @
       (if \<not> fst rs \<and> last_rotation_time (snd rs) \<noteq> 0 \<and> 0 <s Log_RotationAge (snd rs)
        then [Call_time] else [])"
  by (cases rs) (simp add: SysLoggerMain_age_check_def Let_def)

lemma size_check_fst:
  "fst (SysLoggerMain_size_check env rs) \<longleftrightarrow>
     fst rs \<or>
     0 <s Log_RotationSize (snd rs) \<and>
     (scast (Log_RotationSize (snd rs)) :: c_long) * 1024
       \<le>s ftell_result env (syslogFile (snd rs))"
  by (cases rs) (simp add: SysLoggerMain_size_check_def Let_def)

lemma size_check_trace:
  "trace (snd (SysLoggerMain_size_check env rs)) =
     trace (snd rs) @
       (if \<not> fst rs \<and> 0 <s Log_RotationSize (snd rs)
        then [Call_ftell (syslogFile (snd rs))] else [])"
  by (cases rs) (simp add: SysLoggerMain_size_check_def Let_def)

lemma age_check_state [simp]:
  "(snd (SysLoggerMain_age_check env rs))\<lparr>trace := t\<rparr> = (snd rs)\<lparr>trace := t\<rparr>"
  by simp

lemma checks_frame:
  "(snd (SysLoggerMain_checks P env s))\<lparr>trace := t\<rparr> =
   (snd (SysLoggerMain_reload P env s))\<lparr>trace := t\<rparr>"
  by (simp add: SysLoggerMain_checks_def)

lemma checks_fst:
  "fst (SysLoggerMain_checks P env s) \<longleftrightarrow>
     fst (SysLoggerMain_reload P env s) \<or>
     last_rotation_time s \<noteq> 0 \<and>
     0 <s Log_RotationAge (snd (SysLoggerMain_reload P env s)) \<and>
     Log_RotationAge (snd (SysLoggerMain_reload P env s)) * 60
       \<le>s (ucast (time_age_check env - last_rotation_time s) :: c_int) \<or>
     0 <s Log_RotationSize (snd (SysLoggerMain_reload P env s)) \<and>
     (scast (Log_RotationSize (snd (SysLoggerMain_reload P env s))) :: c_long) * 1024
       \<le>s ftell_result env (syslogFile s)"
  unfolding SysLoggerMain_checks_def size_check_fst age_check_fst
  by (simp add: disj_assoc)

lemma checks_trace:
  "trace (snd (SysLoggerMain_checks P env s)) =
     trace s @
     (if got_SIGHUP s then [Call_ProcessConfigFile] else []) @
     (if \<not> fst (SysLoggerMain_reload P env s) \<and> last_rotation_time s \<noteq> 0 \<and>
         0 <s Log_RotationAge (snd (SysLoggerMain_reload P env s))
      then [Call_time] else []) @
     (if \<not> fst (SysLoggerMain_age_check env (SysLoggerMain_reload P env s)) \<and>
         0 <s Log_RotationSize (snd (SysLoggerMain_reload P env s))
      then [Call_ftell (syslogFile s)] else [])"
  unfolding SysLoggerMain_checks_def size_check_trace age_check_trace reload_trace
  by simp

lemma age_condition_unbounded:
  assumes "sint (A :: c_int) \<le> 35791394"
    and "- (2 ^ 31) \<le> sint now - sint lrt" and "sint now - sint lrt < 2 ^ 31"
  shows "0 <s A \<and> A * 60 \<le>s (ucast (now - lrt :: pg_time_t) :: c_int) \<longleftrightarrow>
         0 < sint A \<and> sint A * 60 \<le> sint now - sint lrt"
proof (cases "0 < sint A")
  case True
  then have "sint (A * 60) = sint A * 60"
    using assms(1) by (intro sint_mul_60) simp_all
  then show ?thesis
    by (simp add: word_sless_alt word_sle_eq sint_elapsed [OF assms(2,3)])
next
  case False
  then show ?thesis
    by (simp add: word_sless_alt)
qed

lemma size_condition_unbounded:
  "0 <s (Z :: c_int) \<and> (scast Z :: c_long) * 1024 \<le>s pos \<longleftrightarrow>
   0 < sint Z \<and> sint Z * 1024 \<le> sint pos"
  by (simp add: word_sless_alt word_sle_eq sint_scast_mul_1024)

text \<open>
  Claim C2, as amended. The checks at the top of an iteration request a rotation exactly
  when (1) the reload of this iteration saw the log directory differ from the snapshot,
  or (2) \<open>last_rotation_time\<close> is not 0 and \<open>Log_RotationAge\<close> is positive and the
  elapsed seconds have reached \<open>Log_RotationAge * 60\<close>, or (3) \<open>Log_RotationSize\<close> is
  positive and the position in the current file has reached \<open>Log_RotationSize * 1024\<close>;
  the comparisons are those of C (the elapsed seconds as an \<open>int\<close>, the product by 60 in
  \<open>int\<close>, the product by 1024 in \<open>long\<close>). They are made in this order and the first that
  holds suppresses the later ones: the clock is read only if (1) failed and the guard of
  (2) holds, and the file position only if (1) and (2) failed and the size threshold is
  positive. Whichever condition held, \<open>logfile_rotate\<close> is called on the state the
  reload left, but for the trace. When \<open>Log_RotationAge\<close> is at most \<open>INT_MAX / 60\<close> and
  the elapsed seconds fit an \<open>int\<close>, the comparisons are those of the unbounded
  integers, and with \<open>last_rotation_time\<close> not 0 the request is the one of the
  specification.
\<close>

theorem rotation_requested_iff:
  "(fst (SysLoggerMain_checks P env s) \<longleftrightarrow>
      fst (SysLoggerMain_reload P env s) \<or>
      last_rotation_time s \<noteq> 0 \<and>
      0 <s Log_RotationAge (snd (SysLoggerMain_reload P env s)) \<and>
      Log_RotationAge (snd (SysLoggerMain_reload P env s)) * 60
        \<le>s (ucast (time_age_check env - last_rotation_time s) :: c_int) \<or>
      0 <s Log_RotationSize (snd (SysLoggerMain_reload P env s)) \<and>
      (scast (Log_RotationSize (snd (SysLoggerMain_reload P env s))) :: c_long) * 1024
        \<le>s ftell_result env (syslogFile s)) \<and>
   trace (snd (SysLoggerMain_checks P env s)) =
     trace s @
     (if got_SIGHUP s then [Call_ProcessConfigFile] else []) @
     (if \<not> fst (SysLoggerMain_reload P env s) \<and> last_rotation_time s \<noteq> 0 \<and>
         0 <s Log_RotationAge (snd (SysLoggerMain_reload P env s))
      then [Call_time] else []) @
     (if \<not> fst (SysLoggerMain_reload P env s) \<and>
         \<not> (last_rotation_time s \<noteq> 0 \<and>
            0 <s Log_RotationAge (snd (SysLoggerMain_reload P env s)) \<and>
            Log_RotationAge (snd (SysLoggerMain_reload P env s)) * 60
              \<le>s (ucast (time_age_check env - last_rotation_time s) :: c_int)) \<and>
         0 <s Log_RotationSize (snd (SysLoggerMain_reload P env s))
      then [Call_ftell (syslogFile s)] else []) \<and>
   (snd (SysLoggerMain_checks P env s))\<lparr>trace := trace s\<rparr> =
     (snd (SysLoggerMain_reload P env s))\<lparr>trace := trace s\<rparr> \<and>
   SysLoggerMain_rotation P env s =
     (if fst (SysLoggerMain_checks P env s)
      then logfile_rotate P env (snd (SysLoggerMain_checks P env s))
      else snd (SysLoggerMain_checks P env s)) \<and>
   (sint (Log_RotationAge (snd (SysLoggerMain_reload P env s))) \<le> 35791394 \<and>
    - (2 ^ 31) \<le> sint (time_age_check env) - sint (last_rotation_time s) \<and>
    sint (time_age_check env) - sint (last_rotation_time s) < 2 ^ 31 \<longrightarrow>
      (fst (SysLoggerMain_checks P env s) \<longleftrightarrow>
         fst (SysLoggerMain_reload P env s) \<or>
         last_rotation_time s \<noteq> 0 \<and>
         0 < sint (Log_RotationAge (snd (SysLoggerMain_reload P env s))) \<and>
         sint (Log_RotationAge (snd (SysLoggerMain_reload P env s))) * 60
           \<le> sint (time_age_check env) - sint (last_rotation_time s) \<or>
         0 < sint (Log_RotationSize (snd (SysLoggerMain_reload P env s))) \<and>
         sint (Log_RotationSize (snd (SysLoggerMain_reload P env s))) * 1024
           \<le> sint (ftell_result env (syslogFile s))) \<and>
      (last_rotation_time s \<noteq> 0 \<longrightarrow>
         fst (SysLoggerMain_checks P env s) = spec_rotation_requested P env s))"
proof -
  let ?r = "SysLoggerMain_reload P env s"
  let ?A = "Log_RotationAge (snd ?r)"
  let ?Z = "Log_RotationSize (snd ?r)"
  let ?age = "0 <s ?A \<and>
      ?A * 60 \<le>s (ucast (time_age_check env - last_rotation_time s) :: c_int)"
  let ?size = "0 <s ?Z \<and> (scast ?Z :: c_long) * 1024 \<le>s ftell_result env (syslogFile s)"
  have a: "fst (SysLoggerMain_checks P env s) \<longleftrightarrow>
      fst ?r \<or> last_rotation_time s \<noteq> 0 \<and> ?age \<or> ?size"
    by (rule checks_fst)
  have af: "fst (SysLoggerMain_age_check env ?r) \<longleftrightarrow>
      fst ?r \<or> last_rotation_time s \<noteq> 0 \<and> ?age"
    by (simp add: age_check_fst)
  have b: "trace (snd (SysLoggerMain_checks P env s)) =
     trace s @
     (if got_SIGHUP s then [Call_ProcessConfigFile] else []) @
     (if \<not> fst ?r \<and> last_rotation_time s \<noteq> 0 \<and> 0 <s ?A then [Call_time] else []) @
     (if \<not> fst ?r \<and> \<not> (last_rotation_time s \<noteq> 0 \<and> ?age) \<and> 0 <s ?Z
      then [Call_ftell (syslogFile s)] else [])"
    unfolding checks_trace af by (simp only: de_Morgan_disj conj_assoc)
  have c: "(snd (SysLoggerMain_checks P env s))\<lparr>trace := trace s\<rparr> =
     (snd ?r)\<lparr>trace := trace s\<rparr>"
    by (rule checks_frame)
  have d: "SysLoggerMain_rotation P env s =
     (if fst (SysLoggerMain_checks P env s)
      then logfile_rotate P env (snd (SysLoggerMain_checks P env s))
      else snd (SysLoggerMain_checks P env s))"
    by (rule rotation_cases)
  have e: "(fst (SysLoggerMain_checks P env s) \<longleftrightarrow>
         fst ?r \<or>
         last_rotation_time s \<noteq> 0 \<and> 0 < sint ?A \<and>
         sint ?A * 60 \<le> sint (time_age_check env) - sint (last_rotation_time s) \<or>
         0 < sint ?Z \<and> sint ?Z * 1024 \<le> sint (ftell_result env (syslogFile s))) \<and>
      (last_rotation_time s \<noteq> 0 \<longrightarrow>
         fst (SysLoggerMain_checks P env s) = spec_rotation_requested P env s)"
    if h: "sint ?A \<le> 35791394 \<and>
      - (2 ^ 31) \<le> sint (time_age_check env) - sint (last_rotation_time s) \<and>
      sint (time_age_check env) - sint (last_rotation_time s) < 2 ^ 31"
  proof -
    have age: "?age \<longleftrightarrow> 0 < sint ?A \<and>
        sint ?A * 60 \<le> sint (time_age_check env) - sint (last_rotation_time s)"
      using h by (intro age_condition_unbounded) simp_all
    have size: "?size \<longleftrightarrow>
        0 < sint ?Z \<and> sint ?Z * 1024 \<le> sint (ftell_result env (syslogFile s))"
      by (rule size_condition_unbounded)
    have 1: "fst (SysLoggerMain_checks P env s) \<longleftrightarrow>
         fst ?r \<or>
         last_rotation_time s \<noteq> 0 \<and> 0 < sint ?A \<and>
         sint ?A * 60 \<le> sint (time_age_check env) - sint (last_rotation_time s) \<or>
         0 < sint ?Z \<and> sint ?Z * 1024 \<le> sint (ftell_result env (syslogFile s))"
      unfolding a age size ..
    have 2: "fst (SysLoggerMain_checks P env s) = spec_rotation_requested P env s"
      if "last_rotation_time s \<noteq> 0"
      unfolding 1 using that by (simp add: spec_rotation_requested_def Let_def)
    show ?thesis
      using 1 2 by (intro conjI impI)
  qed
  have e': "sint ?A \<le> 35791394 \<and>
      - (2 ^ 31) \<le> sint (time_age_check env) - sint (last_rotation_time s) \<and>
      sint (time_age_check env) - sint (last_rotation_time s) < 2 ^ 31 \<longrightarrow>
      (fst (SysLoggerMain_checks P env s) \<longleftrightarrow>
         fst ?r \<or>
         last_rotation_time s \<noteq> 0 \<and> 0 < sint ?A \<and>
         sint ?A * 60 \<le> sint (time_age_check env) - sint (last_rotation_time s) \<or>
         0 < sint ?Z \<and> sint ?Z * 1024 \<le> sint (ftell_result env (syslogFile s))) \<and>
      (last_rotation_time s \<noteq> 0 \<longrightarrow>
         fst (SysLoggerMain_checks P env s) = spec_rotation_requested P env s)"
    by (rule impI) (rule e)
  show ?thesis
    by (intro conjI a b c d e')
qed

theorem rotation_requested_iff_witness:
  "sint (Log_RotationAge (snd (SysLoggerMain_reload example_platform next_day_env
     example_state))) \<le> 35791394 \<and>
   - (2 ^ 31) \<le> sint (time_age_check next_day_env) - sint (last_rotation_time example_state) \<and>
   sint (time_age_check next_day_env) - sint (last_rotation_time example_state) < 2 ^ 31 \<and>
   last_rotation_time example_state \<noteq> 0 \<and>
   spec_rotation_requested example_platform next_day_env example_state \<and>
   fst (SysLoggerMain_checks example_platform next_day_env example_state) \<and>
   spec_rotation_requested example_platform
     (example_env\<lparr>ftell_result := (\<lambda>f. 10485760)\<rparr>) example_state \<and>
   fst (SysLoggerMain_checks example_platform
     (example_env\<lparr>ftell_result := (\<lambda>f. 10485760)\<rparr>) example_state) \<and>
   spec_rotation_requested example_platform emfile_reload_env (sigHupHandler example_state) \<and>
   fst (SysLoggerMain_checks example_platform emfile_reload_env (sigHupHandler example_state)) \<and>
   \<not> spec_rotation_requested example_platform example_env example_state \<and>
   \<not> fst (SysLoggerMain_checks example_platform example_env example_state)"
proof -
  let ?size_env = "example_env\<lparr>ftell_result := (\<lambda>f. 10485760)\<rparr>"
  let ?s1 = "sigHupHandler example_state"
  note defs = next_day_env_def emfile_reload_env_def example_defs SysLoggerMain_reload_def
    ProcessConfigFile_def sigHupHandler_def emit_def strncpy_def strncmp_eq_0_iff Let_def
    spec_rotation_requested_def
  have n: "last_rotation_time example_state \<noteq> 0" "last_rotation_time ?s1 \<noteq> 0"
    by (simp_all add: defs)
  have r1: "sint (Log_RotationAge (snd (SysLoggerMain_reload example_platform next_day_env
        example_state))) \<le> 35791394 \<and>
      - (2 ^ 31) \<le> sint (time_age_check next_day_env) - sint (last_rotation_time example_state) \<and>
      sint (time_age_check next_day_env) - sint (last_rotation_time example_state) < 2 ^ 31"
    by (simp add: defs)
  have r2: "sint (Log_RotationAge (snd (SysLoggerMain_reload example_platform ?size_env
        example_state))) \<le> 35791394 \<and>
      - (2 ^ 31) \<le> sint (time_age_check ?size_env) - sint (last_rotation_time example_state) \<and>
      sint (time_age_check ?size_env) - sint (last_rotation_time example_state) < 2 ^ 31"
    by (simp add: defs)
  have r3: "sint (Log_RotationAge (snd (SysLoggerMain_reload example_platform emfile_reload_env
        ?s1))) \<le> 35791394 \<and>
      - (2 ^ 31) \<le> sint (time_age_check emfile_reload_env) - sint (last_rotation_time ?s1) \<and>
      sint (time_age_check emfile_reload_env) - sint (last_rotation_time ?s1) < 2 ^ 31"
    by (simp add: defs)
  have r4: "sint (Log_RotationAge (snd (SysLoggerMain_reload example_platform example_env
        example_state))) \<le> 35791394 \<and>
      - (2 ^ 31) \<le> sint (time_age_check example_env) - sint (last_rotation_time example_state) \<and>
      sint (time_age_check example_env) - sint (last_rotation_time example_state) < 2 ^ 31"
    by (simp add: defs)
  have v1: "spec_rotation_requested example_platform next_day_env example_state"
    by (simp add: defs)
  have v2: "spec_rotation_requested example_platform ?size_env example_state"
    by (simp add: defs)
  have v3: "spec_rotation_requested example_platform emfile_reload_env ?s1"
    by (simp add: defs)
  have v4: "\<not> spec_rotation_requested example_platform example_env example_state"
    by (simp add: defs)
  note T1 = rotation_requested_iff
    [where P = example_platform and env = next_day_env and s = example_state]
  note T2 = rotation_requested_iff
    [where P = example_platform and env = ?size_env and s = example_state]
  note T3 = rotation_requested_iff
    [where P = example_platform and env = emfile_reload_env and s = ?s1]
  note T4 = rotation_requested_iff
    [where P = example_platform and env = example_env and s = example_state]
  have c1: "fst (SysLoggerMain_checks example_platform next_day_env example_state)"
    using T1 r1 n(1) v1 by blast
  have c2: "fst (SysLoggerMain_checks example_platform ?size_env example_state)"
    using T2 r2 n(1) v2 by blast
  have c3: "fst (SysLoggerMain_checks example_platform emfile_reload_env ?s1)"
    using T3 r3 n(2) v3 by blast
  have c4: "\<not> fst (SysLoggerMain_checks example_platform example_env example_state)"
    using T4 r4 n(1) v4 by blast
  show ?thesis
    using r1 n(1) v1 c1 v2 c2 v3 c3 v4 c4 by blast
qed

text \<open>
  The claim as it is worded fails where \<open>last_rotation_time\<close> is 0. A collector that
  started while the clock read 0 runs with the default thresholds; at an iteration when
  the clock reads 1091793601, condition (2) of the claim holds, in the unbounded integers
  and in the arithmetic of C alike, and the checks request nothing.
\<close>

theorem age_rotation_skipped_at_time_zero:
  "last_rotation_time (SysLoggerMain_init example_platform 0 example_state) = 0 \<and>
   spec_rotation_requested example_platform example_env
     (SysLoggerMain_init example_platform 0 example_state) \<and>
   0 <s Log_RotationAge (SysLoggerMain_init example_platform 0 example_state) \<and>
   Log_RotationAge (SysLoggerMain_init example_platform 0 example_state) * 60
     \<le>s (ucast (time_age_check example_env
               - last_rotation_time (SysLoggerMain_init example_platform 0 example_state))
          :: c_int) \<and>
   \<not> fst (SysLoggerMain_checks example_platform example_env
          (SysLoggerMain_init example_platform 0 example_state))"
  by (simp add: SysLoggerMain_init_def spec_rotation_requested_def example_defs
      SysLoggerMain_checks_def SysLoggerMain_reload_def SysLoggerMain_age_check_def
      SysLoggerMain_size_check_def emit_def strncpy_def Let_def word_sless_alt word_sle_eq)

section \<open>C6: the reload latch and the directory snapshot\<close>

lemma length_long_dir: "length long_dir = 1024"
  by (simp add: long_dir_def length_concat sum_list_replicate)

lemma take_long_dir [simp]: "take 1024 (long_dir @ xs) = long_dir"
  by (simp add: length_long_dir)

lemma reload_served:
  assumes "got_SIGHUP s"
  shows "SysLoggerMain_reload P env s =
    (take (MAXPGPATH P) (guc_Log_directory (config_file env))
       \<noteq> take (MAXPGPATH P) (currentLogDir s),
     s\<lparr>Log_RotationAge := guc_Log_RotationAge (config_file env),
       Log_RotationSize := guc_Log_RotationSize (config_file env),
       Log_directory := guc_Log_directory (config_file env),
       Log_filename_prefix := guc_Log_filename_prefix (config_file env),
       got_SIGHUP := False,
       currentLogDir :=
         (if take (MAXPGPATH P) (guc_Log_directory (config_file env))
               \<noteq> take (MAXPGPATH P) (currentLogDir s)
          then take (MAXPGPATH P) (guc_Log_directory (config_file env))
          else currentLogDir s),
       trace := trace s @ [Call_ProcessConfigFile]\<rparr>)"
  using assms
  by (simp add: SysLoggerMain_reload_def ProcessConfigFile_def emit_def strncpy_def
      strncmp_eq_0_iff Let_def)

text \<open>
  Claim C6, as amended. The handler of the reload signal sets \<open>got_SIGHUP\<close> and does
  nothing else. The loop does nothing about a reload while the latch is clear. When it
  finds the latch set, it clears it, has the configuration reread, and requests a
  rotation exactly when the first \<open>MAXPGPATH\<close> characters of the configured log
  directory differ from the first \<open>MAXPGPATH\<close> characters of the snapshot; then, and only
  then, the snapshot becomes the first \<open>MAXPGPATH\<close> characters of the configured
  directory. The snapshot never holds more than \<open>MAXPGPATH\<close> characters; for a
  configured directory of at most \<open>MAXPGPATH\<close> characters the request is made exactly
  when the directory differs from the snapshot, and the snapshot is the configured
  directory afterwards.
\<close>

theorem reload_requests_rotation_iff:
  "sigHupHandler s = s\<lparr>got_SIGHUP := True\<rparr> \<and>
   (\<not> got_SIGHUP s \<longrightarrow> SysLoggerMain_reload P env s = (False, s)) \<and>
   (got_SIGHUP s \<longrightarrow>
      (fst (SysLoggerMain_reload P env s) \<longleftrightarrow>
         take (MAXPGPATH P) (guc_Log_directory (config_file env))
           \<noteq> take (MAXPGPATH P) (currentLogDir s)) \<and>
      snd (SysLoggerMain_reload P env s) =
        s\<lparr>Log_RotationAge := guc_Log_RotationAge (config_file env),
          Log_RotationSize := guc_Log_RotationSize (config_file env),
          Log_directory := guc_Log_directory (config_file env),
          Log_filename_prefix := guc_Log_filename_prefix (config_file env),
          got_SIGHUP := False,
          currentLogDir :=
            (if fst (SysLoggerMain_reload P env s)
             then take (MAXPGPATH P) (guc_Log_directory (config_file env))
             else currentLogDir s),
          trace := trace s @ [Call_ProcessConfigFile]\<rparr>) \<and>
   (got_SIGHUP s \<and> length (guc_Log_directory (config_file env)) \<le> MAXPGPATH P \<and>
    length (currentLogDir s) \<le> MAXPGPATH P \<longrightarrow>
      (fst (SysLoggerMain_reload P env s) \<longleftrightarrow>
         guc_Log_directory (config_file env) \<noteq> currentLogDir s) \<and>
      currentLogDir (snd (SysLoggerMain_reload P env s)) =
        guc_Log_directory (config_file env)) \<and>
   length (currentLogDir (SysLoggerMain_init P now s)) \<le> MAXPGPATH P \<and>
   (length (currentLogDir s) \<le> MAXPGPATH P \<longrightarrow>
      length (currentLogDir (snd (SysLoggerMain_reload P env s))) \<le> MAXPGPATH P)"
proof (intro conjI impI)
  show "sigHupHandler s = s\<lparr>got_SIGHUP := True\<rparr>"
    by (simp add: sigHupHandler_def)
  show "SysLoggerMain_reload P env s = (False, s)" if "\<not> got_SIGHUP s"
    using that by (simp add: SysLoggerMain_reload_def)
  show "fst (SysLoggerMain_reload P env s) \<longleftrightarrow>
         take (MAXPGPATH P) (guc_Log_directory (config_file env))
           \<noteq> take (MAXPGPATH P) (currentLogDir s)" if "got_SIGHUP s"
    by (simp add: reload_served [OF that])
  show "snd (SysLoggerMain_reload P env s) =
        s\<lparr>Log_RotationAge := guc_Log_RotationAge (config_file env),
          Log_RotationSize := guc_Log_RotationSize (config_file env),
          Log_directory := guc_Log_directory (config_file env),
          Log_filename_prefix := guc_Log_filename_prefix (config_file env),
          got_SIGHUP := False,
          currentLogDir :=
            (if fst (SysLoggerMain_reload P env s)
             then take (MAXPGPATH P) (guc_Log_directory (config_file env))
             else currentLogDir s),
          trace := trace s @ [Call_ProcessConfigFile]\<rparr>" if "got_SIGHUP s"
    by (simp add: reload_served [OF that])
  show "fst (SysLoggerMain_reload P env s) \<longleftrightarrow>
         guc_Log_directory (config_file env) \<noteq> currentLogDir s"
    if "got_SIGHUP s \<and> length (guc_Log_directory (config_file env)) \<le> MAXPGPATH P \<and>
      length (currentLogDir s) \<le> MAXPGPATH P"
    using that by (simp add: reload_served)
  show "currentLogDir (snd (SysLoggerMain_reload P env s)) =
        guc_Log_directory (config_file env)"
    if "got_SIGHUP s \<and> length (guc_Log_directory (config_file env)) \<le> MAXPGPATH P \<and>
      length (currentLogDir s) \<le> MAXPGPATH P"
    using that by (simp add: reload_served)
  show "length (currentLogDir (SysLoggerMain_init P now s)) \<le> MAXPGPATH P"
    by (simp add: SysLoggerMain_init_def strncpy_def)
  show "length (currentLogDir (snd (SysLoggerMain_reload P env s))) \<le> MAXPGPATH P"
    if "length (currentLogDir s) \<le> MAXPGPATH P"
  proof (cases "got_SIGHUP s")
    case True
    show ?thesis
      using that by (simp add: reload_served [OF True])
  next
    case False
    then show ?thesis
      using that by (simp add: SysLoggerMain_reload_def)
  qed
qed

theorem reload_requests_rotation_iff_witness:
  "got_SIGHUP (sigHupHandler example_state) \<and>
   length (guc_Log_directory (config_file emfile_reload_env)) \<le> MAXPGPATH example_platform \<and>
   length (currentLogDir (sigHupHandler example_state)) \<le> MAXPGPATH example_platform \<and>
   guc_Log_directory (config_file emfile_reload_env) \<noteq> currentLogDir (sigHupHandler example_state) \<and>
   fst (SysLoggerMain_reload example_platform emfile_reload_env (sigHupHandler example_state)) \<and>
   currentLogDir (snd (SysLoggerMain_reload example_platform emfile_reload_env
     (sigHupHandler example_state))) = ''/var/log/pgsql'' \<and>
   \<not> got_SIGHUP (snd (SysLoggerMain_reload example_platform emfile_reload_env
     (sigHupHandler example_state))) \<and>
   \<not> fst (SysLoggerMain_reload example_platform example_env (sigHupHandler example_state)) \<and>
   \<not> got_SIGHUP example_state \<and>
   SysLoggerMain_reload example_platform emfile_reload_env example_state =
     (False, example_state)"
proof -
  let ?s = "sigHupHandler example_state"
  note T1 = reload_requests_rotation_iff
    [where s = ?s and P = example_platform and env = emfile_reload_env]
  note T2 = reload_requests_rotation_iff
    [where s = ?s and P = example_platform and env = example_env]
  note T3 = reload_requests_rotation_iff
    [where s = example_state and P = example_platform and env = emfile_reload_env]
  note defs = emfile_reload_env_def example_defs sigHupHandler_def
  have g: "got_SIGHUP ?s"
    by (simp add: defs)
  have l1: "length (guc_Log_directory (config_file emfile_reload_env))
      \<le> MAXPGPATH example_platform"
    "length (guc_Log_directory (config_file example_env)) \<le> MAXPGPATH example_platform"
    "length (currentLogDir ?s) \<le> MAXPGPATH example_platform"
    by (simp_all add: defs)
  have d: "guc_Log_directory (config_file emfile_reload_env) \<noteq> currentLogDir ?s"
    "guc_Log_directory (config_file example_env) = currentLogDir ?s"
    "guc_Log_directory (config_file emfile_reload_env) = ''/var/log/pgsql''"
    by (simp_all add: defs)
  have ng: "\<not> got_SIGHUP example_state"
    by (simp add: defs)
  have 1: "fst (SysLoggerMain_reload example_platform emfile_reload_env ?s)"
    "currentLogDir (snd (SysLoggerMain_reload example_platform emfile_reload_env ?s)) =
       guc_Log_directory (config_file emfile_reload_env)"
    using T1 g l1(1) l1(3) d(1) by blast+
  have 2: "\<not> fst (SysLoggerMain_reload example_platform example_env ?s)"
    using T2 g l1(2) l1(3) d(2) by blast
  have 3: "SysLoggerMain_reload example_platform emfile_reload_env example_state =
     (False, example_state)"
    using T3 ng by blast
  have "snd (SysLoggerMain_reload example_platform emfile_reload_env ?s) =
        ?s\<lparr>Log_RotationAge := guc_Log_RotationAge (config_file emfile_reload_env),
          Log_RotationSize := guc_Log_RotationSize (config_file emfile_reload_env),
          Log_directory := guc_Log_directory (config_file emfile_reload_env),
          Log_filename_prefix := guc_Log_filename_prefix (config_file emfile_reload_env),
          got_SIGHUP := False,
          currentLogDir :=
            (if fst (SysLoggerMain_reload example_platform emfile_reload_env ?s)
             then take (MAXPGPATH example_platform)
                    (guc_Log_directory (config_file emfile_reload_env))
             else currentLogDir ?s),
          trace := trace ?s @ [Call_ProcessConfigFile]\<rparr>"
    using T1 g by blast
  then have 4: "\<not> got_SIGHUP (snd (SysLoggerMain_reload example_platform emfile_reload_env ?s))"
    by simp
  show ?thesis
    using g l1(1) l1(3) d(1) 1 2 3 4 ng unfolding d(3) by blast
qed

text \<open>
  The claim as it is worded fails for directories longer than \<open>MAXPGPATH\<close>. A collector
  started with the directory \<open>long_dir_a\<close> holds its first 1024 characters as the
  snapshot. A reload that configures \<open>long_dir_b\<close>, which differs from the snapshot and
  from \<open>long_dir_a\<close>, requests no rotation and leaves the snapshot. And a reload that
  moves a collector from \<open>pg_log\<close> to \<open>long_dir_a\<close> requests a rotation and leaves a
  snapshot that is not the configured directory.
\<close>

theorem long_directory_change_not_seen:
  "currentLogDir (SysLoggerMain_init example_platform 1091793600
     (example_state\<lparr>Log_directory := long_dir_a\<rparr>)) = long_dir \<and>
   long_dir_b \<noteq> long_dir \<and> long_dir_b \<noteq> long_dir_a \<and>
   \<not> fst (SysLoggerMain_reload example_platform
          (example_env\<lparr>config_file := (config_file example_env)
             \<lparr>guc_Log_directory := long_dir_b\<rparr>\<rparr>)
          (sigHupHandler (SysLoggerMain_init example_platform 1091793600
             (example_state\<lparr>Log_directory := long_dir_a\<rparr>)))) \<and>
   currentLogDir (snd (SysLoggerMain_reload example_platform
          (example_env\<lparr>config_file := (config_file example_env)
             \<lparr>guc_Log_directory := long_dir_b\<rparr>\<rparr>)
          (sigHupHandler (SysLoggerMain_init example_platform 1091793600
             (example_state\<lparr>Log_directory := long_dir_a\<rparr>))))) = long_dir \<and>
   fst (SysLoggerMain_reload example_platform
          (example_env\<lparr>config_file := (config_file example_env)
             \<lparr>guc_Log_directory := long_dir_a\<rparr>\<rparr>)
          (sigHupHandler example_state)) \<and>
   currentLogDir (snd (SysLoggerMain_reload example_platform
          (example_env\<lparr>config_file := (config_file example_env)
             \<lparr>guc_Log_directory := long_dir_a\<rparr>\<rparr>)
          (sigHupHandler example_state))) \<noteq> long_dir_a"
proof -
  have ne: "long_dir_b \<noteq> long_dir" "long_dir_a \<noteq> long_dir" "long_dir_b \<noteq> long_dir_a"
    by (simp_all add: long_dir_a_def long_dir_b_def)
  have p: "take 1024 long_dir_a = long_dir" "take 1024 long_dir_b = long_dir"
    "take 1024 long_dir = long_dir"
    by (simp_all add: long_dir_a_def long_dir_b_def length_long_dir)
  have "length long_dir \<noteq> length ''pg_log''"
    by (simp add: length_long_dir)
  then have q: "long_dir \<noteq> ''pg_log''"
    by (rule contrapos_nn) (erule arg_cong)
  show ?thesis
    using ne q
    by (simp add: SysLoggerMain_init_def SysLoggerMain_reload_def ProcessConfigFile_def
        sigHupHandler_def emit_def strncpy_def strncmp_eq_0_iff Let_def example_defs p)
qed

section \<open>C3: the name of a log file\<close>

subsection \<open>The two formats\<close>

lemma printf_absolute:
  "printf ''%s/%s%05u_%s.log'' [Str d, Str p, UInt u, Str t] =
     d @ ''/'' @ p @ zero_pad 5 (utoa (unat u)) @ ''_'' @ t @ ''.log''"
  by simp

lemma printf_relative:
  "printf ''%s/%s/%s%05u_%s.log'' [Str dd, Str d, Str p, UInt u, Str t] =
     dd @ ''/'' @ d @ ''/'' @ p @ zero_pad 5 (utoa (unat u)) @ ''_'' @ t @ ''.log''"
  by simp

subsection \<open>Decimal digits\<close>

lemma of_char_digit: "d < 10 \<Longrightarrow> (of_char (char_of (48 + d)) :: nat) = 48 + d"
  by simp

lemma atou_snoc: "atou (ds @ [c]) = 10 * atou ds + (of_char c - 48)"
  by (simp add: atou_def)

lemma atou_utoa: "atou (utoa n) = n"
proof (induction n rule: utoa.induct)
  case (1 n)
  show ?case
  proof (cases "n < 10")
    case True
    then show ?thesis
      by (simp add: utoa.simps [of n] atou_def)
  next
    case False
    then have "atou (utoa n) = 10 * atou (utoa (n div 10)) + n mod 10"
      by (simp add: utoa.simps [of n] atou_snoc)
    then show ?thesis
      using 1 False by simp
  qed
qed

lemma atou_zeros: "atou (replicate k (CHR ''0'') @ ds) = atou ds"
proof -
  have "foldl (\<lambda>acc c. 10 * acc + (of_char c - 48)) 0 (replicate k (CHR ''0'')) = (0 :: nat)"
    by (induction k) simp_all
  then show ?thesis
    by (simp add: atou_def)
qed

lemma utoa_digits: "\<forall>c \<in> set (utoa n). is_digit c"
proof (induction n rule: utoa.induct)
  case (1 n)
  show ?case
  proof (cases "n < 10")
    case True
    then show ?thesis
      by (simp add: utoa.simps [of n] is_digit_def)
  next
    case False
    have "n mod 10 < 10" by simp
    then have "is_digit (char_of (48 + n mod 10))"
      unfolding is_digit_def by (simp only: of_char_digit) simp
    then show ?thesis
      using 1 False by (simp add: utoa.simps [of n])
  qed
qed

lemma length_utoa_le: "n < 10 ^ k \<Longrightarrow> 0 < k \<Longrightarrow> length (utoa n) \<le> k"
proof (induction n arbitrary: k rule: utoa.induct)
  case (1 n)
  show ?case
  proof (cases "n < 10")
    case True
    then show ?thesis
      using "1.prems" by (simp add: utoa.simps [of n])
  next
    case False
    then obtain j where k: "k = Suc j"
      using "1.prems" by (cases k) simp_all
    have "0 < j"
      using False "1.prems" k by (cases j) simp_all
    moreover have "n div 10 < 10 ^ j"
      using "1.prems" k by (simp add: less_mult_imp_div_less mult.commute)
    ultimately have "length (utoa (n div 10)) \<le> j"
      using "1.IH" False by simp
    then show ?thesis
      using False k by (simp add: utoa.simps [of n])
  qed
qed

lemma length_utoa_gt: "10 ^ k \<le> n \<Longrightarrow> k < length (utoa n)"
proof (induction n arbitrary: k rule: utoa.induct)
  case (1 n)
  show ?case
  proof (cases k)
    case 0
    then show ?thesis
      by (simp add: utoa.simps [of n])
  next
    case (Suc j)
    then have ge: "10 \<le> n"
      using "1.prems" by (cases j) (simp_all add: le_trans [rotated])
    have "10 ^ j \<le> n div 10"
      using "1.prems" Suc by (simp add: less_eq_div_iff_mult_less_eq mult.commute)
    then have "j < length (utoa (n div 10))"
      using "1.IH" ge by simp
    then show ?thesis
      using ge Suc by (simp add: utoa.simps [of n])
  qed
qed

lemma pad_digits_zero: "pad_digits k 0 = replicate k (CHR ''0'')"
  by (induction k) (simp_all add: digit_chars replicate_append_same)

lemma utoa_small: "n < 10 \<Longrightarrow> utoa n = [char_of (48 + n)]"
  by (simp add: utoa.simps [of n])

lemma utoa_step: "10 \<le> n \<Longrightarrow> utoa n = utoa (n div 10) @ [char_of (48 + n mod 10)]"
  by (simp add: utoa.simps [of n])

lemma zero_pad_utoa: "n < 10 ^ k \<Longrightarrow> 0 < k \<Longrightarrow> zero_pad k (utoa n) = pad_digits k n"
proof (induction k arbitrary: n)
  case 0
  then show ?case by simp
next
  case (Suc j)
  show ?case
  proof (cases "n < 10")
    case True
    then show ?thesis
      by (simp add: utoa_small zero_pad_def pad_digits_zero)
  next
    case False
    then have j: "0 < j"
      using Suc.prems by (cases j) simp_all
    have lt: "n div 10 < 10 ^ j"
      using Suc.prems by (simp add: less_mult_imp_div_less mult.commute)
    then have len: "length (utoa (n div 10)) \<le> j"
      using j by (rule length_utoa_le)
    have "zero_pad (Suc j) (utoa n) =
        zero_pad j (utoa (n div 10)) @ [char_of (48 + n mod 10)]"
      using False len by (simp add: utoa_step zero_pad_def Suc_diff_le)
    then show ?thesis
      using Suc.IH [OF lt j] by simp
  qed
qed

lemma spec_pid5_pad_digits: "spec_pid5 n = pad_digits 5 n"
proof -
  have d2: "n div 10 div 10 = n div 100"
    using div_mult2_eq [of n 10 10] by simp
  have d3: "n div 100 div 10 = n div 1000"
    using div_mult2_eq [of n 100 10] by simp
  have d4: "n div 1000 div 10 = n div 10000"
    using div_mult2_eq [of n 1000 10] by simp
  have five: "(5 :: nat) = Suc (Suc (Suc (Suc (Suc 0))))"
    by simp
  have "pad_digits (Suc (Suc (Suc (Suc (Suc 0))))) n = spec_pid5 n"
    by (simp add: spec_pid5_def d2 d3 d4)
  then show ?thesis
    by (simp only: five)
qed

lemma zero_pad_5_spec: "n < 100000 \<Longrightarrow> zero_pad 5 (utoa n) = spec_pid5 n"
  using zero_pad_utoa [of n 5] by (simp add: spec_pid5_pad_digits)

lemma length_zero_pad: "length (zero_pad w ds) = max w (length ds)"
  by (simp add: zero_pad_def)

lemma length_zero_pad_5_utoa: "length (zero_pad 5 (utoa n)) = 5 \<longleftrightarrow> n < 100000"
proof
  assume "length (zero_pad 5 (utoa n)) = 5"
  then have "length (utoa n) \<le> 5"
    by (simp add: length_zero_pad)
  then have "\<not> 10 ^ 5 \<le> n"
    using length_utoa_gt [of 5 n] by auto
  then show "n < 100000" by simp
next
  assume "n < 100000"
  then have "length (utoa n) \<le> 5"
    using length_utoa_le [of n 5] by simp
  then show "length (zero_pad 5 (utoa n)) = 5"
    by (simp add: length_zero_pad)
qed

lemma zero_pad_digits: "\<forall>c \<in> set (zero_pad w (utoa n)). is_digit c"
  using utoa_digits [of n] by (auto simp: zero_pad_def is_digit_def)

lemma logfile_getname_eq:
  "logfile_getname P s ts =
     take (MAXPGPATH P - 1)
       ((if is_absolute_path P (Log_directory s) then Log_directory s
         else DataDir s @ ''/'' @ Log_directory s)
        @ ''/'' @ Log_filename_prefix s @ zero_pad 5 (utoa (unat (PostmasterPid s))) @ ''_''
        @ pg_strftime P 128 ''%Y-%m-%d_%H%M%S'' (pg_localtime P ts) @ ''.log'')"
proof (cases "is_absolute_path P (Log_directory s)")
  case True
  then show ?thesis
    unfolding logfile_getname_def snprintf_def Let_def printf_absolute printf_relative
    by (simp only: if_True)
next
  case False
  then show ?thesis
    unfolding logfile_getname_def snprintf_def Let_def printf_absolute printf_relative
    by (simp only: if_False append_assoc)
qed

text \<open>
  Claim C3, as amended. \<open>logfile_getname\<close> returns the first \<open>MAXPGPATH - 1\<close> characters
  of the directory, a slash, the prefix, the process identifier, an underscore, the
  time stamp and \<open>.log\<close>, where the directory is \<open>Log_directory\<close> if that is absolute and
  \<open>DataDir\<close>, a slash and \<open>Log_directory\<close> otherwise, the time stamp is what \<open>pg_strftime\<close>
  makes of the local time with the format \<open>%Y-%m-%d_%H%M%S\<close>, and the process identifier
  is written in decimal digits, with zeros on the left up to a width of 5: at least 5
  digits, and exactly 5 when it is below 100000. For such a process identifier and a
  path shorter than \<open>MAXPGPATH\<close>, the name is the one of the specification. The name
  depends on the state through the data directory, the log directory, the prefix and
  the process identifier only.
\<close>

theorem logfile_getname_format:
  "logfile_getname P s ts =
     take (MAXPGPATH P - 1)
       ((if is_absolute_path P (Log_directory s) then Log_directory s
         else DataDir s @ ''/'' @ Log_directory s)
        @ ''/'' @ Log_filename_prefix s @ zero_pad 5 (utoa (unat (PostmasterPid s))) @ ''_''
        @ pg_strftime P 128 ''%Y-%m-%d_%H%M%S'' (pg_localtime P ts) @ ''.log'') \<and>
   5 \<le> length (zero_pad 5 (utoa (unat (PostmasterPid s)))) \<and>
   (length (zero_pad 5 (utoa (unat (PostmasterPid s)))) = 5 \<longleftrightarrow>
      unat (PostmasterPid s) < 100000) \<and>
   atou (zero_pad 5 (utoa (unat (PostmasterPid s)))) = unat (PostmasterPid s) \<and>
   (\<forall>c \<in> set (zero_pad 5 (utoa (unat (PostmasterPid s)))). is_digit c) \<and>
   (unat (PostmasterPid s) < 100000 \<longrightarrow>
      zero_pad 5 (utoa (unat (PostmasterPid s))) = spec_pid5 (unat (PostmasterPid s))) \<and>
   (unat (PostmasterPid s) < 100000 \<and> length (spec_logfile_name P s ts) < MAXPGPATH P \<longrightarrow>
      logfile_getname P s ts = spec_logfile_name P s ts) \<and>
   (\<forall>s'. DataDir s' = DataDir s \<and> Log_directory s' = Log_directory s \<and>
         Log_filename_prefix s' = Log_filename_prefix s \<and>
         PostmasterPid s' = PostmasterPid s \<longrightarrow>
         logfile_getname P s' ts = logfile_getname P s ts)"
proof -
  let ?pid = "unat (PostmasterPid s)"
  have 1: "logfile_getname P s ts =
     take (MAXPGPATH P - 1)
       ((if is_absolute_path P (Log_directory s) then Log_directory s
         else DataDir s @ ''/'' @ Log_directory s)
        @ ''/'' @ Log_filename_prefix s @ zero_pad 5 (utoa ?pid) @ ''_''
        @ pg_strftime P 128 ''%Y-%m-%d_%H%M%S'' (pg_localtime P ts) @ ''.log'')"
    by (rule logfile_getname_eq)
  have 2: "5 \<le> length (zero_pad 5 (utoa ?pid))"
    by (simp add: length_zero_pad)
  have 3: "length (zero_pad 5 (utoa ?pid)) = 5 \<longleftrightarrow> ?pid < 100000"
    by (rule length_zero_pad_5_utoa)
  have 4: "atou (zero_pad 5 (utoa ?pid)) = ?pid"
    by (simp add: zero_pad_def atou_zeros atou_utoa)
  have 5: "\<forall>c \<in> set (zero_pad 5 (utoa ?pid)). is_digit c"
    by (rule zero_pad_digits)
  have 6: "?pid < 100000 \<longrightarrow> zero_pad 5 (utoa ?pid) = spec_pid5 ?pid"
    by (simp add: zero_pad_5_spec)
  have 7: "?pid < 100000 \<and> length (spec_logfile_name P s ts) < MAXPGPATH P \<longrightarrow>
      logfile_getname P s ts = spec_logfile_name P s ts"
  proof
    assume a: "?pid < 100000 \<and> length (spec_logfile_name P s ts) < MAXPGPATH P"
    then have "zero_pad 5 (utoa ?pid) = spec_pid5 ?pid"
      by (simp add: zero_pad_5_spec)
    then have "logfile_getname P s ts = take (MAXPGPATH P - 1) (spec_logfile_name P s ts)"
      unfolding 1 spec_logfile_name_def by (simp only:)
    moreover have "length (spec_logfile_name P s ts) \<le> MAXPGPATH P - 1"
      using a by linarith
    ultimately show "logfile_getname P s ts = spec_logfile_name P s ts"
      by (simp only: take_all)
  qed
  have 8: "\<forall>s'. DataDir s' = DataDir s \<and> Log_directory s' = Log_directory s \<and>
         Log_filename_prefix s' = Log_filename_prefix s \<and>
         PostmasterPid s' = PostmasterPid s \<longrightarrow>
         logfile_getname P s' ts = logfile_getname P s ts"
    by (intro allI impI logfile_getname_cong) simp_all
  show ?thesis
    by (intro conjI 1 2 3 4 5 6 7 8)
qed

theorem logfile_getname_format_witness:
  "unat (PostmasterPid example_state) < 100000 \<and>
   length (spec_logfile_name example_platform example_state 1091793600)
     < MAXPGPATH example_platform \<and>
   \<not> is_absolute_path example_platform (Log_directory example_state) \<and>
   logfile_getname example_platform example_state 1091793600 =
     ''/usr/local/pgsql/data/pg_log/postgresql-04711_2004-08-06_120000.log'' \<and>
   is_absolute_path example_platform ''/var/log/pgsql'' \<and>
   logfile_getname example_platform
     (example_state\<lparr>Log_directory := ''/var/log/pgsql''\<rparr>) 1091793600 =
     ''/var/log/pgsql/postgresql-04711_2004-08-06_120000.log''"
proof -
  let ?s2 = "example_state\<lparr>Log_directory := ''/var/log/pgsql''\<rparr>"
  note T1 = logfile_getname_format
    [where P = example_platform and s = example_state and ts = 1091793600]
  note T2 = logfile_getname_format
    [where P = example_platform and s = ?s2 and ts = 1091793600]
  have p: "unat (PostmasterPid example_state) < 100000" "unat (PostmasterPid ?s2) < 100000"
    by (simp_all add: example_state_def)
  have v1: "spec_logfile_name example_platform example_state 1091793600 =
      ''/usr/local/pgsql/data/pg_log/postgresql-04711_2004-08-06_120000.log''"
    by (simp add: spec_logfile_name_def spec_pid5_def example_defs digit_chars)
  have v2: "spec_logfile_name example_platform ?s2 1091793600 =
      ''/var/log/pgsql/postgresql-04711_2004-08-06_120000.log''"
    by (simp add: spec_logfile_name_def spec_pid5_def example_defs digit_chars)
  have l: "length (spec_logfile_name example_platform example_state 1091793600)
        < MAXPGPATH example_platform"
    "length (spec_logfile_name example_platform ?s2 1091793600) < MAXPGPATH example_platform"
    unfolding v1 v2 by (simp_all add: example_platform_def)
  have a: "\<not> is_absolute_path example_platform (Log_directory example_state)"
    "is_absolute_path example_platform ''/var/log/pgsql''"
    by (simp_all add: example_defs)
  have 1: "logfile_getname example_platform example_state 1091793600 =
      spec_logfile_name example_platform example_state 1091793600"
    using T1 p(1) l(1) by blast
  have 2: "logfile_getname example_platform ?s2 1091793600 =
      spec_logfile_name example_platform ?s2 1091793600"
    using T2 p(2) l(2) by blast
  show ?thesis
    using p(1) l(1) a 1 2 unfolding v1 v2 by blast
qed

text \<open>
  The claim as it is worded fails in three places. A process identifier of six digits is
  written with six digits, and the name is one character longer than the specified one.
  Under the directory \<open>long_dir_a\<close> the name is cut to 1023 characters. And two
  collectors that differ in the data directory only, and agree on directory, prefix,
  process identifier and time, get different names.
\<close>

theorem logfile_name_not_as_specified:
  "logfile_getname example_platform (example_state\<lparr>PostmasterPid := 123456\<rparr>) 1091793600 =
     ''/usr/local/pgsql/data/pg_log/postgresql-123456_2004-08-06_120000.log'' \<and>
   spec_logfile_name example_platform (example_state\<lparr>PostmasterPid := 123456\<rparr>) 1091793600 =
     ''/usr/local/pgsql/data/pg_log/postgresql-23456_2004-08-06_120000.log'' \<and>
   length (logfile_getname example_platform
     (example_state\<lparr>PostmasterPid := 123456\<rparr>) 1091793600) =
   Suc (length (spec_logfile_name example_platform
     (example_state\<lparr>PostmasterPid := 123456\<rparr>) 1091793600)) \<and>
   length (logfile_getname example_platform
     (example_state\<lparr>Log_directory := long_dir_a\<rparr>) 1091793600) = 1023 \<and>
   length (spec_logfile_name example_platform
     (example_state\<lparr>Log_directory := long_dir_a\<rparr>) 1091793600) = 1065 \<and>
   logfile_getname example_platform
     (example_state\<lparr>DataDir := ''/srv/pgsql''\<rparr>) 1091793600 \<noteq>
   logfile_getname example_platform example_state 1091793600"
proof -
  have eight: "(8 :: nat) = Suc 7"
    by simp
  have "replicate 8 x = x # replicate 7 x" for x :: string
    unfolding eight by (rule replicate_Suc)
  then have "take 1 long_dir = ''/''"
    unfolding long_dir_def by simp
  then have abs: "is_absolute_path example_platform long_dir_a"
    by (simp add: example_platform_def long_dir_a_def length_long_dir)
  have u: "unat (123456 :: c_int) = 123456" "unat (4711 :: c_int) = 4711"
    by simp_all
  have pid6: "zero_pad 5 (utoa 123456) = ''123456''"
    by (simp add: zero_pad_def utoa.simps digit_chars)
  have pid5: "zero_pad 5 (utoa 4711) = ''04711''"
    by (simp add: zero_pad_def utoa.simps digit_chars)
  have 1: "logfile_getname example_platform (example_state\<lparr>PostmasterPid := 123456\<rparr>)
      1091793600 = ''/usr/local/pgsql/data/pg_log/postgresql-123456_2004-08-06_120000.log''"
    unfolding logfile_getname_eq by (simp add: example_defs u pid6)
  have 2: "spec_logfile_name example_platform (example_state\<lparr>PostmasterPid := 123456\<rparr>)
      1091793600 = ''/usr/local/pgsql/data/pg_log/postgresql-23456_2004-08-06_120000.log''"
    by (simp add: spec_logfile_name_def spec_pid5_def example_defs digit_chars)
  have 3: "length (logfile_getname example_platform
     (example_state\<lparr>PostmasterPid := 123456\<rparr>) 1091793600) =
   Suc (length (spec_logfile_name example_platform
     (example_state\<lparr>PostmasterPid := 123456\<rparr>) 1091793600))"
    unfolding 1 2 by simp
  have 4: "length (logfile_getname example_platform
     (example_state\<lparr>Log_directory := long_dir_a\<rparr>) 1091793600) = 1023"
    unfolding logfile_getname_eq using abs
    by (simp add: example_defs long_dir_a_def length_long_dir)
  have 5: "length (spec_logfile_name example_platform
     (example_state\<lparr>Log_directory := long_dir_a\<rparr>) 1091793600) = 1065"
    unfolding spec_logfile_name_def using abs
    by (simp add: example_defs long_dir_a_def length_long_dir spec_pid5_def)
  have 6: "logfile_getname example_platform
     (example_state\<lparr>DataDir := ''/srv/pgsql''\<rparr>) 1091793600 \<noteq>
   logfile_getname example_platform example_state 1091793600"
    unfolding logfile_getname_eq by (simp add: example_defs u pid5)
  show ?thesis
    by (intro conjI 1 2 3 4 5 6)
qed

end
